theory Spec2Isabelle
  imports Main "HOL-Library.Word"
begin

unbundle bit_operations_syntax

section \<open>Binary buffers\<close>

type_synonym byte = "8 word"

text \<open>
  A \<open>binarray.Buffer\<close> is modelled by the bytes of its slice \<open>Data\<close>. An access that makes
  the Go run time panic (an index or a slice bound out of range) yields \<open>None\<close>. An index
  \<open>Data[i]\<close> and a slice \<open>Data[i:]\<close> are checked against the length of the slice. A slice
  with an upper bound, \<open>Data[i:j]\<close>, is checked against its capacity and can reach the
  bytes of the backing array that lie past the length: the functions that take one, \<open>Read\<close>
  and \<open>ReadSz\<close>, and their callers have these bytes as the argument \<open>spare\<close>. It is empty
  for a slice from \<open>make([]byte, n)\<close> and can be non-empty for one from \<open>os.ReadFile\<close>.
\<close>

type_synonym Buffer = "byte list"

definition Len :: "Buffer \<Rightarrow> int" where
  "Len b = int (length b)"

definition bytes_of :: "string \<Rightarrow> byte list" where
  "bytes_of s = map of_char s"

definition string_of :: "byte list \<Rightarrow> string" where
  "string_of bs = map (\<lambda>b. char_of (unat b)) bs"

text \<open>\<open>binary.LittleEndian.Uint32\<close> and \<open>Uint16\<close> on the first bytes of a slice.\<close>

definition le_u32 :: "byte \<Rightarrow> byte \<Rightarrow> byte \<Rightarrow> byte \<Rightarrow> 32 word" where
  "le_u32 b0 b1 b2 b3 =
     ucast b0 OR push_bit 8 (ucast b1) OR push_bit 16 (ucast b2) OR push_bit 24 (ucast b3)"

definition le_u16 :: "byte \<Rightarrow> byte \<Rightarrow> 16 word" where
  "le_u16 b0 b1 = ucast b0 OR push_bit 8 (ucast b1)"

definition GetU8 :: "Buffer \<Rightarrow> int \<Rightarrow> byte option" where
  "GetU8 b idx = (if 0 \<le> idx \<and> idx < Len b then Some (b ! nat idx) else None)"

definition GetUint :: "Buffer \<Rightarrow> int \<Rightarrow> 32 word option" where
  "GetUint b idx =
     (if 0 \<le> idx \<and> idx + 4 \<le> Len b
      then Some (le_u32 (b ! nat idx) (b ! nat (idx + 1)) (b ! nat (idx + 2)) (b ! nat (idx + 3)))
      else None)"

text \<open>\<open>GetInt\<close> returns an \<open>int32\<close>; every caller converts it to \<open>int\<close>.\<close>

definition GetInt :: "Buffer \<Rightarrow> int \<Rightarrow> int option" where
  "GetInt b idx = map_option sint (GetUint b idx)"

text \<open>\<open>string(b.Data[idx : idx+length])\<close>: the bounds are \<open>0 \<le> idx \<le> idx + length \<le> cap\<close>.\<close>

definition Read :: "Buffer \<Rightarrow> byte list \<Rightarrow> int \<Rightarrow> int \<Rightarrow> byte list option" where
  "Read b spare idx len =
     (if 0 \<le> idx \<and> 0 \<le> len \<and> idx + len \<le> Len b + int (length spare)
      then Some (take (nat len) (drop (nat idx) (b @ spare))) else None)"

definition ReadSz :: "Buffer \<Rightarrow> byte list \<Rightarrow> int \<Rightarrow> int \<Rightarrow> byte list option" where
  "ReadSz b spare idx len = map_option (takeWhile (\<lambda>c. c \<noteq> 0)) (Read b spare idx len)"

section \<open>Bytecode file headers\<close>

definition HeaderV1 :: int where "HeaderV1 = 1"
definition HeaderV2 :: int where "HeaderV2 = 2"

definition magicKP2K :: "byte list" where "magicKP2K = bytes_of ''KP2K''"
definition magicRD2K :: "byte list" where "magicRD2K = bytes_of ''RD2K''"
definition magicKPRL :: "byte list" where "magicKPRL = bytes_of ''KPRL''"
definition magicRDRL :: "byte list" where "magicRDRL = bytes_of ''RDRL''"
definition magicKPRM :: "byte list" where "magicKPRM = bytes_of ''KPRM''"
definition magicRDRM :: "byte list" where "magicRDRM = bytes_of ''RDRM''"
definition magicD001 :: "byte list" where "magicD001 = [0xd0, 0x01, 0x00, 0x00]"
definition magicCC01 :: "byte list" where "magicCC01 = [0xcc, 0x01, 0x00, 0x00]"
definition magicB801 :: "byte list" where "magicB801 = [0xb8, 0x01, 0x00, 0x00]"

record FileHeader =
  HeaderVersion :: int
  CompilerVersion :: int
  DataOffset :: int
  UncompressedSize :: int
  CompressedSize :: int
  IsCompressed :: bool
  Int0x2C :: int
  EntryPoints :: "int list"
  KidokuLnums :: "int list"
  DramatisPersonae :: "byte list list"
  Archived :: bool

text \<open>The zero value \<open>FileHeader{}\<close> and \<open>EmptyHeader()\<close>.\<close>

definition ZeroHeader :: FileHeader where
  "ZeroHeader = \<lparr>HeaderVersion = 0, CompilerVersion = 0, DataOffset = 0, UncompressedSize = 0,
     CompressedSize = 0, IsCompressed = False, Int0x2C = 0, EntryPoints = replicate 100 0,
     KidokuLnums = [], DramatisPersonae = [], Archived = False\<rparr>"

definition EmptyHeader :: FileHeader where
  "EmptyHeader = ZeroHeader\<lparr>CompressedSize := - 1\<rparr>"

datatype header_error = NotBytecodeFile | UnsupportedHeaderFormat "byte list" | HeaderPanic

text \<open>
  \<open>IsBytecode(arr, idx)\<close>. After the length check the four magic bytes and the version
  are in range unless \<open>idx\<close> is negative, where \<open>arr.Read\<close> panics.
\<close>

definition IsBytecode :: "Buffer \<Rightarrow> byte list \<Rightarrow> int \<Rightarrow> bool option" where
  "IsBytecode arr spare idx =
     (if idx + 8 > Len arr then Some False
      else case Read arr spare idx 4 of
        None \<Rightarrow> None
      | Some ident \<Rightarrow>
          if ident = magicRDRL \<or> ident = magicRD2K \<or> ident = magicRDRM then Some True
          else if ident = magicKPRL \<or> ident = magicKP2K \<or> ident = magicKPRM \<or>
                  ident = magicD001 \<or> ident = magicCC01 \<or> ident = magicB801 then
            (case GetInt arr (idx + 4) of
               None \<Rightarrow> None
             | Some ver \<Rightarrow> Some (ver = 10002 \<or> ver = 110002 \<or> ver = 1110002))
          else Some False)"

definition UncompressedHeader :: "byte list \<Rightarrow> bool" where
  "UncompressedHeader magic =
     (magic = magicKPRL \<or> magic = magicKP2K \<or> magic = magicKPRM \<or>
      magic = magicRDRL \<or> magic = magicRD2K \<or> magic = magicRDRM)"

text \<open>The two layouts read by \<open>ReadFileHeader\<close>, each a run of \<open>GetInt\<close> calls.\<close>

definition read_v1_fields :: "Buffer \<Rightarrow> FileHeader \<Rightarrow> header_error + FileHeader" where
  "read_v1_fields arr hdr =
     (case (GetInt arr 0x20, GetInt arr 0x24, GetInt arr 0x28) of
        (Some kidoku, Some usize, Some i28) \<Rightarrow>
          Inr (hdr\<lparr>HeaderVersion := HeaderV1, DataOffset := 0x1cc + kidoku * 4,
                   UncompressedSize := usize, Int0x2C := i28\<rparr>)
      | _ \<Rightarrow> Inl HeaderPanic)"

definition read_v2_fields :: "Buffer \<Rightarrow> FileHeader \<Rightarrow> header_error + FileHeader" where
  "read_v2_fields arr hdr =
     (case (GetInt arr 0x20, GetInt arr 0x24, GetInt arr 0x28, GetInt arr 0x2c) of
        (Some doff, Some usize, Some compSize, Some i2c) \<Rightarrow>
          Inr ((if compSize > 0
                then hdr\<lparr>HeaderVersion := HeaderV2, DataOffset := doff, UncompressedSize := usize,
                          CompressedSize := compSize, IsCompressed := True\<rparr>
                else hdr\<lparr>HeaderVersion := HeaderV2, DataOffset := doff, UncompressedSize := usize\<rparr>)
               \<lparr>Int0x2C := i2c\<rparr>)
      | _ \<Rightarrow> Inl HeaderPanic)"

definition ReadFileHeader :: "Buffer \<Rightarrow> byte list \<Rightarrow> bool \<Rightarrow> header_error + FileHeader" where
  "ReadFileHeader arr spare archived =
     (case IsBytecode arr spare 0 of
        None \<Rightarrow> Inl HeaderPanic
      | Some False \<Rightarrow> Inl NotBytecodeFile
      | Some True \<Rightarrow>
          (case Read arr spare 0 4 of
             None \<Rightarrow> Inl HeaderPanic
           | Some magic \<Rightarrow>
               (case (if take 2 magic = bytes_of ''RD''
                      then (if drop 2 magic = bytes_of ''RM'' then Some 110002 else Some 10002)
                      else GetInt arr 4) of
                  None \<Rightarrow> Inl HeaderPanic
                | Some cv \<Rightarrow>
                    (let hdr = EmptyHeader\<lparr>CompilerVersion := cv, Archived := archived\<rparr>
                     in if magic = magicKP2K \<or> magic = magicRD2K \<or> magic = magicCC01
                          then read_v1_fields arr hdr
                        else if magic = magicKPRL \<or> magic = magicRDRL \<or> magic = magicKPRM \<or>
                                magic = magicRDRM \<or> magic = magicD001
                          then read_v2_fields arr hdr
                        else Inl (UnsupportedHeaderFormat magic)))))"

section \<open>Compiler metadata\<close>

datatype TextTransform = TransformNone | TransformChinese | TransformWestern | TransformKorean

record Metadata =
  CompilerName :: "byte list"
  MetaCompilerVersion :: int
  TargetVersion :: "byte list"
  MetaTextTransform :: TextTransform

definition Empty :: Metadata where
  "Empty = \<lparr>CompilerName = [], MetaCompilerVersion = 0, TargetVersion = [0, 0, 0, 0],
     MetaTextTransform = TransformNone\<rparr>"

definition transform_of :: "byte \<Rightarrow> TextTransform" where
  "transform_of b =
     (if b = 1 then TransformChinese else if b = 2 then TransformWestern
      else if b = 3 then TransformKorean else TransformNone)"

text \<open>
  \<open>metadata.Read(arr, idx)\<close>; \<open>None\<close> is a run-time panic. The local \<open>idLen\<close> is the
  stored identifier length plus one (the terminating NUL).
\<close>

definition MetaRead :: "Buffer \<Rightarrow> byte list \<Rightarrow> int \<Rightarrow> Metadata option" where
  "MetaRead arr spare idx =
     (if idx + 8 > Len arr then Some Empty
      else case (GetInt arr idx, GetInt arr (idx + 4)) of
        (Some metaLen, Some stored) \<Rightarrow>
          (let idLen = stored + 1 in
           if metaLen < idLen + 17 then Some Empty
           else
             (let idx2 = idx + 8 + idLen in
              case (ReadSz arr spare (idx + 8) idLen, GetInt arr idx2,
                    GetU8 arr (idx2 + 4), GetU8 arr (idx2 + 5), GetU8 arr (idx2 + 6),
                    GetU8 arr (idx2 + 7), GetU8 arr (idx2 + 8)) of
                (Some name, Some ver, Some t0, Some t1, Some t2, Some t3, Some tt) \<Rightarrow>
                  Some \<lparr>CompilerName = name, MetaCompilerVersion = ver,
                        TargetVersion = [t0, t1, t2, t3], MetaTextTransform = transform_of tt\<rparr>
              | _ \<Rightarrow> None))
      | _ \<Rightarrow> None)"

section \<open>SEEN archives\<close>

definition MaxSeens :: int where
  "MaxSeens = 10000"

definition IndexSize :: int where
  "IndexSize = MaxSeens * 8"

definition emptyArcMagic :: "byte list" where
  "emptyArcMagic = 0 # bytes_of ''Empty RealLive archive''"

record SeenEntry =
  Offset :: int
  Length :: int

definition getSubfileInfo :: "Buffer \<Rightarrow> int \<Rightarrow> SeenEntry option" where
  "getSubfileInfo arc idx =
     (if Len arc \<le> 23 then Some \<lparr>Offset = 0, Length = 0\<rparr>
      else case (GetInt arc (idx * 8), GetInt arc (idx * 8 + 4)) of
        (Some off, Some len) \<Rightarrow> Some \<lparr>Offset = off, Length = len\<rparr>
      | _ \<Rightarrow> None)"

text \<open>
  The loop of \<open>SeenCount\<close> over the slots \<open>i, i + 1, ..., MaxSeens - 1\<close>. The conjunction
  is evaluated left to right, so \<open>IsBytecode\<close> is only called when the two bounds hold.
\<close>

function seen_loop :: "Buffer \<Rightarrow> byte list \<Rightarrow> int \<Rightarrow> int \<Rightarrow> int option" where
  "seen_loop arr spare i count =
     (if i < MaxSeens then
        (case getSubfileInfo arr i of
           None \<Rightarrow> None
         | Some entry \<Rightarrow>
             if Length entry = 0 then seen_loop arr spare (i + 1) count
             else if Offset entry + Length entry > IndexSize \<and>
                     Offset entry + Length entry \<le> Len arr then
               (case IsBytecode arr spare (Offset entry) of
                  None \<Rightarrow> None
                | Some True \<Rightarrow> seen_loop arr spare (i + 1) (count + 1)
                | Some False \<Rightarrow> Some (if count > 0 then - count else - 1))
             else Some (if count > 0 then - count else - 1))
      else Some count)"
  by pat_completeness auto
termination
  by (relation "measure (\<lambda>(arr, spare, i, count). nat (MaxSeens - i))") auto

declare seen_loop.simps [simp del]

definition SeenCount :: "Buffer \<Rightarrow> byte list \<Rightarrow> int option" where
  "SeenCount arr spare =
     (if Len arr \<ge> 23 \<and> Read arr spare 0 23 = Some emptyArcMagic then Some 0
      else if Len arr < IndexSize then Some (- 1)
      else seen_loop arr spare 0 0)"

section \<open>Range grammar of the SEEN archiver\<close>

subsection \<open>The standard-library functions \<open>ParseRanges\<close> calls\<close>

text \<open>
  Go strings are byte sequences; \<open>strings.TrimSpace\<close> removes the leading and trailing
  white-space code points, read as UTF-8: the six ASCII ones, U+0085 and U+00A0 (two
  bytes), U+1680, U+2000 to U+200A, U+2028, U+2029, U+202F, U+205F and U+3000 (three bytes).
\<close>

definition ascii_space :: "char \<Rightarrow> bool" where
  "ascii_space a = (a = CHR 0x09 \<or> a = CHR 0x0A \<or> a = CHR 0x0B \<or> a = CHR 0x0C \<or>
     a = CHR 0x0D \<or> a = CHR 0x20)"

definition space2 :: "char \<Rightarrow> char \<Rightarrow> bool" where
  "space2 a b = (a = CHR 0xC2 \<and> (b = CHR 0x85 \<or> b = CHR 0xA0))"

definition space3 :: "char \<Rightarrow> char \<Rightarrow> char \<Rightarrow> bool" where
  "space3 a b c =
     ((a = CHR 0xE1 \<and> b = CHR 0x9A \<and> c = CHR 0x80) \<or>
      (a = CHR 0xE2 \<and> b = CHR 0x80 \<and>
         ((0x80 \<le> (of_char c :: nat) \<and> (of_char c :: nat) \<le> 0x8A) \<or>
          c = CHR 0xA8 \<or> c = CHR 0xA9 \<or> c = CHR 0xAF)) \<or>
      (a = CHR 0xE2 \<and> b = CHR 0x81 \<and> c = CHR 0x9F) \<or>
      (a = CHR 0xE3 \<and> b = CHR 0x80 \<and> c = CHR 0x80))"

fun trimLeftSpace :: "string \<Rightarrow> string" where
  "trimLeftSpace [] = []"
| "trimLeftSpace [a] = (if ascii_space a then [] else [a])"
| "trimLeftSpace [a, b] =
     (if ascii_space a then trimLeftSpace [b]
      else if space2 a b then [] else [a, b])"
| "trimLeftSpace (a # b # c # s) =
     (if ascii_space a then trimLeftSpace (b # c # s)
      else if space2 a b then trimLeftSpace (c # s)
      else if space3 a b c then trimLeftSpace s
      else a # b # c # s)"

text \<open>The same scan from the end: the argument is the reversed string.\<close>

fun trimRevSpace :: "string \<Rightarrow> string" where
  "trimRevSpace [] = []"
| "trimRevSpace [a] = (if ascii_space a then [] else [a])"
| "trimRevSpace [b, a] =
     (if ascii_space b then trimRevSpace [a]
      else if space2 a b then [] else [b, a])"
| "trimRevSpace (c # b # a # s) =
     (if ascii_space c then trimRevSpace (b # a # s)
      else if space2 b c then trimRevSpace (a # s)
      else if space3 a b c then trimRevSpace s
      else c # b # a # s)"

definition TrimSpace :: "string \<Rightarrow> string" where
  "TrimSpace s = rev (trimRevSpace (rev (trimLeftSpace s)))"

definition is_digit :: "char \<Rightarrow> bool" where
  "is_digit c = (48 \<le> (of_char c :: nat) \<and> (of_char c :: nat) \<le> 57)"

definition dec_val :: "string \<Rightarrow> int" where
  "dec_val ds = foldl (\<lambda>acc c. 10 * acc + (int (of_char c) - 48)) 0 ds"

text \<open>
  \<open>strconv.Atoi\<close>: an optional sign and decimal digits. The pair is the value and
  whether the error is nil; out of the 64-bit range the value is the nearest bound and
  the error is a range error, and on a syntax error the value is 0.
\<close>

definition atoi_digits :: "bool \<Rightarrow> string \<Rightarrow> int \<times> bool" where
  "atoi_digits neg ds =
     (if ds = [] \<or> \<not> list_all is_digit ds then (0, False)
      else if neg then
        (if dec_val ds \<le> 2 ^ 63 then (- dec_val ds, True) else (- (2 ^ 63), False))
      else
        (if dec_val ds \<le> 2 ^ 63 - 1 then (dec_val ds, True) else (2 ^ 63 - 1, False)))"

fun Atoi :: "string \<Rightarrow> int \<times> bool" where
  "Atoi [] = (0, False)"
| "Atoi (c # cs) =
     (if c = CHR ''-'' then atoi_digits True cs
      else if c = CHR ''+'' then atoi_digits False cs
      else atoi_digits False (c # cs))"

text \<open>
  The three regular expressions. \<open>\d\<close> is an ASCII digit and \<open>$\<close> the end of the text,
  so a match is unique: \<open>rangeRe = ^(\d+)[-~.](\d+)$\<close>, \<open>negRangeRe = ^!(\d+)[-~.](\d+)$\<close>,
  \<open>negRe = ^!(\d+)$\<close>. Each returns the captured groups.
\<close>

definition rangeRe :: "string \<Rightarrow> (string \<times> string) option" where
  "rangeRe s =
     (let d1 = takeWhile is_digit s; rest = dropWhile is_digit s in
      case rest of
        [] \<Rightarrow> None
      | sep # d2 \<Rightarrow>
          if d1 \<noteq> [] \<and> (sep = CHR ''-'' \<or> sep = CHR ''~'' \<or> sep = CHR ''.'') \<and>
             d2 \<noteq> [] \<and> list_all is_digit d2
          then Some (d1, d2) else None)"

definition negRangeRe :: "string \<Rightarrow> (string \<times> string) option" where
  "negRangeRe s = (case s of [] \<Rightarrow> None | c # t \<Rightarrow> if c = CHR ''!'' then rangeRe t else None)"

definition negRe :: "string \<Rightarrow> string option" where
  "negRe s =
     (case s of
        [] \<Rightarrow> None
      | c # t \<Rightarrow> if c = CHR ''!'' \<and> t \<noteq> [] \<and> list_all is_digit t then Some t else None)"

subsection \<open>\<open>ParseRanges\<close>\<close>

datatype range_error = MalformedRange string

text \<open>
  The parser's state is the slice \<open>result\<close> and the map \<open>excluded\<close>, whose keys are kept
  as a list without repetition.
\<close>

type_synonym range_state = "int list \<times> int list"

text \<open>\<open>for i := start; i <= end && i < MaxSeens; i++\<close>, collecting the values of \<open>i\<close>.\<close>

function range_loop :: "int \<Rightarrow> int \<Rightarrow> int list \<Rightarrow> int list" where
  "range_loop i e acc =
     (if i \<le> e \<and> i < MaxSeens then range_loop (i + 1) e (acc @ [i]) else acc)"
  by pat_completeness auto
termination
  by (relation "measure (\<lambda>(i, e, acc). nat (MaxSeens - i))") auto

declare range_loop.simps [simp del]

definition parse_arg :: "string \<Rightarrow> range_state \<Rightarrow> range_error + range_state" where
  "parse_arg arg0 st =
     (let arg = TrimSpace arg0; result = fst st; excluded = snd st in
      if arg = [] then Inr st
      else case negRangeRe arg of
        Some (m1, m2) \<Rightarrow>
          Inr (result, fold List.insert (range_loop (fst (Atoi m1)) (fst (Atoi m2)) []) excluded)
      | None \<Rightarrow>
        (case negRe arg of
           Some m1 \<Rightarrow> Inr (result, List.insert (fst (Atoi m1)) excluded)
         | None \<Rightarrow>
           (case rangeRe arg of
              Some (m1, m2) \<Rightarrow> Inr (range_loop (fst (Atoi m1)) (fst (Atoi m2)) result, excluded)
            | None \<Rightarrow>
                if snd (Atoi arg) then
                  (if 0 \<le> fst (Atoi arg) \<and> fst (Atoi arg) < MaxSeens
                   then Inr (result @ [fst (Atoi arg)], excluded) else Inr st)
                else Inl (MalformedRange arg))))"

fun parse_args :: "string list \<Rightarrow> range_state \<Rightarrow> range_error + range_state" where
  "parse_args [] st = Inr st"
| "parse_args (arg # args) st =
     (case parse_arg arg st of Inl e \<Rightarrow> Inl e | Inr st' \<Rightarrow> parse_args args st')"

definition apply_exclusions :: "range_state \<Rightarrow> int list" where
  "apply_exclusions st =
     (let result = fst st; excluded = snd st in
      if result = [] \<and> excluded \<noteq> [] then
        filter (\<lambda>i. \<not> List.member excluded i) (range_loop 0 (MaxSeens - 1) [])
      else if excluded \<noteq> [] then filter (\<lambda>i. \<not> List.member excluded i) result
      else result)"

definition ParseRanges :: "string list \<Rightarrow> range_error + int list" where
  "ParseRanges args =
     (if args = [] then Inr []
      else case parse_args args ([], []) of
        Inl e \<Rightarrow> Inl e
      | Inr st \<Rightarrow> Inr (sort (apply_exclusions st)))"

text \<open>
  An archive of 80008 bytes, all zero except slot 0 (offset 79992, length 16) and the four
  bytes \<open>RDRL\<close> at offset 79992, which are the offset field of the empty slot 9999.
\<close>

definition low_offset_archive :: Buffer where
  "low_offset_archive =
     [0x78, 0x38, 0x01, 0, 16, 0, 0, 0] @ replicate 79984 0 @ bytes_of ''RDRL'' @ replicate 12 0"

section \<open>The bytecode reader\<close>

datatype EngineMode = ModeNone | ModeRealLive | ModeAvg2000 | ModeKinetic

text \<open>
  Go's \<open>int\<close> is 64 bits wide and wraps around. The fields \<open>pos\<close>, \<open>origin\<close> and
  \<open>limit\<close> hold values of that range; \<open>add64\<close> and \<open>sub64\<close> are the machine's addition
  and subtraction. An increment that follows a successful comparison with \<open>limit\<close>
  cannot overflow and is written with \<open>+\<close>.
\<close>

definition int64 :: "int \<Rightarrow> int" where
  "int64 x = (x + 2 ^ 63) mod 2 ^ 64 - 2 ^ 63"

definition add64 :: "int \<Rightarrow> int \<Rightarrow> int" where
  "add64 a b = int64 (a + b)"

definition sub64 :: "int \<Rightarrow> int \<Rightarrow> int" where
  "sub64 a b = int64 (a - b)"

definition in_int64 :: "int \<Rightarrow> bool" where
  "in_int64 x = (- (2 ^ 63) \<le> x \<and> x < 2 ^ 63)"

text \<open>
  The reader holds the slice \<open>arr.Data\<close>. The methods modelled here read it by index and
  by \<open>data[pos:]\<close> only, which are checked against its length, so the reader is given the
  bytes of the slice without its spare capacity.
\<close>

record Reader =
  data :: "byte list"
  pos :: int
  origin :: int
  limit :: int
  mode :: EngineMode

definition NewReader :: "byte list \<Rightarrow> int \<Rightarrow> int \<Rightarrow> EngineMode \<Rightarrow> Reader" where
  "NewReader d org lim m = \<lparr>data = d, pos = org, origin = org, limit = lim, mode = m\<rparr>"

text \<open>
  The errors the reader and the parsers return, with the values their messages print.
  \<open>ReaderPanic\<close> is not a Go error but a run-time panic (an index out of range): no
  caller can test for it, and it ends the whole disassembly.
\<close>

datatype rd_error =
    ReaderPanic
  | EndOfData int
  | NotEnoughData int
  | ExpectEOF byte
  | ExpectMismatch byte byte int
  | UnexpectedByte byte int
  | UnexpectedStringByte byte

type_synonym 'a rd_result = "(rd_error + 'a) \<times> Reader"

definition Pos :: "Reader \<Rightarrow> int" where
  "Pos r = pos r"

definition RelPos :: "Reader \<Rightarrow> int" where
  "RelPos r = sub64 (pos r) (origin r)"

definition AtEnd :: "Reader \<Rightarrow> bool" where
  "AtEnd r = (pos r \<ge> limit r)"

definition Next :: "Reader \<Rightarrow> byte rd_result" where
  "Next r =
     (if pos r \<ge> limit r then (Inl (EndOfData (pos r)), r)
      else case GetU8 (data r) (pos r) of
        None \<Rightarrow> (Inl ReaderPanic, r)
      | Some b \<Rightarrow> (Inr b, r\<lparr>pos := pos r + 1\<rparr>))"

definition Peek :: "Reader \<Rightarrow> byte rd_result" where
  "Peek r =
     (if pos r \<ge> limit r then (Inl (EndOfData (pos r)), r)
      else case GetU8 (data r) (pos r) of
        None \<Rightarrow> (Inl ReaderPanic, r)
      | Some b \<Rightarrow> (Inr b, r))"

definition GetI16 :: "Buffer \<Rightarrow> int \<Rightarrow> 16 word option" where
  "GetI16 b idx =
     (if 0 \<le> idx \<and> idx + 2 \<le> Len b
      then Some (le_u16 (b ! nat idx) (b ! nat (idx + 1))) else None)"

definition ReadInt32 :: "Reader \<Rightarrow> int rd_result" where
  "ReadInt32 r =
     (if add64 (pos r) 4 > limit r then (Inl (NotEnoughData (pos r)), r)
      else case GetUint (data r) (pos r) of
        None \<Rightarrow> (Inl ReaderPanic, r)
      | Some v \<Rightarrow> (Inr (sint v), r\<lparr>pos := pos r + 4\<rparr>))"

definition ReadUint16 :: "Reader \<Rightarrow> int rd_result" where
  "ReadUint16 r =
     (if add64 (pos r) 2 > limit r then (Inl (NotEnoughData (pos r)), r)
      else case GetI16 (data r) (pos r) of
        None \<Rightarrow> (Inl ReaderPanic, r)
      | Some v \<Rightarrow> (Inr (uint v), r\<lparr>pos := pos r + 2\<rparr>))"

definition ReaderGetInt :: "Reader \<Rightarrow> int rd_result" where
  "ReaderGetInt r = ReadInt32 r"

definition GetInt16 :: "Reader \<Rightarrow> int rd_result" where
  "GetInt16 r = ReadUint16 r"

definition GetIntForMode :: "Reader \<Rightarrow> int rd_result" where
  "GetIntForMode r = (if mode r = ModeAvg2000 then ReaderGetInt r else GetInt16 r)"

text \<open>\<open>Expect\<close> consumes the byte it reads, also when the byte is not the expected one.\<close>

definition Expect :: "byte \<Rightarrow> Reader \<Rightarrow> unit rd_result" where
  "Expect expected r =
     (case Next r of
        (Inl ReaderPanic, r') \<Rightarrow> (Inl ReaderPanic, r')
      | (Inl e, r') \<Rightarrow> (Inl (ExpectEOF expected), r')
      | (Inr b, r') \<Rightarrow>
          if b \<noteq> expected then (Inl (ExpectMismatch expected b (sub64 (pos r') 1)), r')
          else (Inr (), r'))"

definition Rollback :: "int \<Rightarrow> Reader \<Rightarrow> Reader" where
  "Rollback n r =
     (let p = sub64 (pos r) n in r\<lparr>pos := (if p < origin r then origin r else p)\<rparr>)"

definition Skip :: "int \<Rightarrow> Reader \<Rightarrow> Reader" where
  "Skip n r = r\<lparr>pos := add64 (pos r) n\<rparr>"

subsection \<open>Formatting\<close>

text \<open>The verbs of \<open>fmt.Sprintf\<close> the disassembler uses: \<open>%d\<close>, \<open>%0wd\<close> and \<open>%02x\<close>.\<close>

definition digit_char :: "nat \<Rightarrow> char" where
  "digit_char d = ''0123456789'' ! d"

function digits10 :: "nat \<Rightarrow> string" where
  "digits10 n = (if n < 10 then [digit_char n] else digits10 (n div 10) @ [digit_char (n mod 10)])"
  by pat_completeness auto
termination
  by (relation "measure id") auto

declare digits10.simps [simp del]

definition fmt_nat :: "nat \<Rightarrow> string" where
  "fmt_nat n = digits10 n"

definition fmt_d :: "int \<Rightarrow> string" where
  "fmt_d i = (if i < 0 then CHR ''-'' # fmt_nat (nat (- i)) else fmt_nat (nat i))"

definition zero_pad :: "nat \<Rightarrow> string \<Rightarrow> string" where
  "zero_pad w s = replicate (w - length s) CHR ''0'' @ s"

definition fmt_0d :: "nat \<Rightarrow> int \<Rightarrow> string" where
  "fmt_0d w i =
     (if i < 0 then CHR ''-'' # zero_pad (w - 1) (fmt_nat (nat (- i)))
      else zero_pad w (fmt_nat (nat i)))"

definition hex_char :: "nat \<Rightarrow> char" where
  "hex_char d = ''0123456789abcdef'' ! d"

definition fmt_02x :: "byte \<Rightarrow> string" where
  "fmt_02x b = [hex_char (unat b div 16), hex_char (unat b mod 16)]"

subsection \<open>The expression parser\<close>

text \<open>
  The parser is a recursive descent over the reader. Its functions call one another
  and loop, so each takes a number of steps it may still make (the first argument);
  \<open>None\<close> means the number was too small, and any larger number gives the same result
  as soon as one gives a result.
\<close>

definition cond_op :: "byte \<Rightarrow> string option" where
  "cond_op b =
     (if b = 0x28 then Some ''==''
      else if b = 0x29 then Some ''!=''
      else if b = 0x2a then Some ''<=''
      else if b = 0x2b then Some ''<''
      else if b = 0x2c then Some ''>=''
      else if b = 0x2d then Some ''>''
      else None)"

definition arith_op :: "byte \<Rightarrow> string option" where
  "arith_op b =
     (if b = 0x00 then Some ''+''
      else if b = 0x01 then Some ''-''
      else if b = 0x02 then Some ''*''
      else if b = 0x03 then Some ''/''
      else if b = 0x04 then Some ''%''
      else if b = 0x05 then Some ''&''
      else if b = 0x06 then Some ''|''
      else if b = 0x07 then Some ''^''
      else if b = 0x08 then Some ''<<''
      else if b = 0x09 then Some ''>>''
      else None)"

definition int_var_prefix :: "byte \<Rightarrow> string" where
  "int_var_prefix varType =
     (if varType < 6 then ''int'' @ [''A'', ''B'', ''C'', ''D'', ''E'', ''F''] ! unat varType
      else if varType = 6 then ''intG''
      else if varType = 7 then ''intZ''
      else if varType = 0x0a then ''intL''
      else ''int_'' @ fmt_02x varType)"

fun getExprBool :: "nat \<Rightarrow> Reader \<Rightarrow> string rd_result option"
  and getExprBoolLoop :: "nat \<Rightarrow> string \<Rightarrow> Reader \<Rightarrow> string rd_result option"
  and getExprCond :: "nat \<Rightarrow> Reader \<Rightarrow> string rd_result option"
  and getExprArith :: "nat \<Rightarrow> Reader \<Rightarrow> string rd_result option"
  and getExprArithLoop :: "nat \<Rightarrow> string \<Rightarrow> Reader \<Rightarrow> string rd_result option"
  and getExprTerm :: "nat \<Rightarrow> Reader \<Rightarrow> string rd_result option"
  and readIntVar :: "nat \<Rightarrow> Reader \<Rightarrow> string rd_result option"
where
  "getExprBool 0 r = None"
| "getExprBool (Suc n) r =
     (case getExprCond n r of
        None \<Rightarrow> None
      | Some (Inl e, r1) \<Rightarrow> Some (Inl e, r1)
      | Some (Inr left, r1) \<Rightarrow> getExprBoolLoop n left r1)"
| "getExprBoolLoop 0 left r = None"
| "getExprBoolLoop (Suc n) left r =
     (case Peek r of
        (Inl ReaderPanic, r1) \<Rightarrow> Some (Inl ReaderPanic, r1)
      | (Inl e, r1) \<Rightarrow> Some (Inr left, r1)
      | (Inr b, r1) \<Rightarrow>
          if b = 0x3c \<or> b = 0x3d then
            (case getExprCond n (snd (Next r1)) of
               None \<Rightarrow> None
             | Some (Inl e, r2) \<Rightarrow> Some (Inl e, r2)
             | Some (Inr right, r2) \<Rightarrow>
                 getExprBoolLoop n
                   (left @ (if b = 0x3c then '' && '' else '' || '') @ right) r2)
          else Some (Inr left, r1))"
| "getExprCond 0 r = None"
| "getExprCond (Suc n) r =
     (case getExprArith n r of
        None \<Rightarrow> None
      | Some (Inl e, r1) \<Rightarrow> Some (Inl e, r1)
      | Some (Inr left, r1) \<Rightarrow>
          (case Peek r1 of
             (Inl ReaderPanic, r2) \<Rightarrow> Some (Inl ReaderPanic, r2)
           | (Inl e, r2) \<Rightarrow> Some (Inr left, r2)
           | (Inr b, r2) \<Rightarrow>
               (case cond_op b of
                  None \<Rightarrow> Some (Inr left, r2)
                | Some op \<Rightarrow>
                    (case getExprArith n (snd (Next r2)) of
                       None \<Rightarrow> None
                     | Some (Inl e, r3) \<Rightarrow> Some (Inl e, r3)
                     | Some (Inr right, r3) \<Rightarrow>
                         Some (Inr (left @ '' '' @ op @ '' '' @ right), r3)))))"
| "getExprArith 0 r = None"
| "getExprArith (Suc n) r =
     (case getExprTerm n r of
        None \<Rightarrow> None
      | Some (Inl e, r1) \<Rightarrow> Some (Inl e, r1)
      | Some (Inr left, r1) \<Rightarrow> getExprArithLoop n left r1)"
| "getExprArithLoop 0 left r = None"
| "getExprArithLoop (Suc n) left r =
     (case Peek r of
        (Inl ReaderPanic, r1) \<Rightarrow> Some (Inl ReaderPanic, r1)
      | (Inl e, r1) \<Rightarrow> Some (Inr left, r1)
      | (Inr b, r1) \<Rightarrow>
          (case arith_op b of
             None \<Rightarrow> Some (Inr left, r1)
           | Some op \<Rightarrow>
               (case getExprTerm n (snd (Next r1)) of
                  None \<Rightarrow> None
                | Some (Inl e, r2) \<Rightarrow> Some (Inl e, r2)
                | Some (Inr right, r2) \<Rightarrow>
                    getExprArithLoop n (left @ '' '' @ op @ '' '' @ right) r2)))"
| "getExprTerm 0 r = None"
| "getExprTerm (Suc n) r =
     (case Next r of
        (Inl e, r1) \<Rightarrow> Some (Inl e, r1)
      | (Inr b, r1) \<Rightarrow>
          if b = 0xff then
            (case ReadInt32 r1 of
               (Inl e, r2) \<Rightarrow> Some (Inl e, r2)
             | (Inr v, r2) \<Rightarrow> Some (Inr (fmt_d v), r2))
          else if b = 0xc8 then Some (Inr ''store'', r1)
          else if b = 0x0a then
            (case getExprTerm n r1 of
               None \<Rightarrow> None
             | Some (Inl e, r2) \<Rightarrow> Some (Inl e, r2)
             | Some (Inr t, r2) \<Rightarrow> Some (Inr (''-'' @ t), r2))
          else if b = 0x0b then
            (case getExprBool n r1 of
               None \<Rightarrow> None
             | Some (Inl e, r2) \<Rightarrow> Some (Inl e, r2)
             | Some (Inr expr, r2) \<Rightarrow>
                 (case Expect 0x29 r2 of
                    (Inl ReaderPanic, r3) \<Rightarrow> Some (Inl ReaderPanic, r3)
                  | (_, r3) \<Rightarrow> Some (Inr (''('' @ expr @ '')''), r3)))
          else if 0x14 \<le> b \<and> b \<le> 0x1e then
            (case getExprTerm n r1 of
               None \<Rightarrow> None
             | Some (Inl e, r2) \<Rightarrow> Some (Inl e, r2)
             | Some (Inr t, r2) \<Rightarrow>
                 if b = 0x14 then Some (Inr (''~'' @ t), r2)
                 else Some (Inr (''op_'' @ fmt_02x b @ ''('' @ t @ '')''), r2))
          else if b = 0x24 then readIntVar n r1
          else
            (let r2 = Rollback 1 r1 in Some (Inl (UnexpectedByte b (pos r2)), r2)))"
| "readIntVar 0 r = None"
| "readIntVar (Suc n) r =
     (case Next r of
        (Inl e, r1) \<Rightarrow> Some (Inl e, r1)
      | (Inr varType, r1) \<Rightarrow>
          (case Expect 0x5b r1 of
             (Inl ReaderPanic, r2) \<Rightarrow> Some (Inl ReaderPanic, r2)
           | (res, r2) \<Rightarrow>
               (case getExprBool n (if isl res then Rollback 1 r2 else r2) of
                  None \<Rightarrow> None
                | Some (Inl e, r3) \<Rightarrow> Some (Inl e, r3)
                | Some (Inr idx, r3) \<Rightarrow>
                    (case Expect 0x5d r3 of
                       (Inl ReaderPanic, r4) \<Rightarrow> Some (Inl ReaderPanic, r4)
                     | (_, r4) \<Rightarrow>
                         Some (Inr (int_var_prefix varType @ ''['' @ idx @ '']''), r4)))))"

definition GetExpression :: "nat \<Rightarrow> Reader \<Rightarrow> string rd_result option" where
  "GetExpression n r = getExprBool n r"

subsection \<open>Sequences of cursor operations\<close>

datatype reader_op = OpNext | OpSkip int | OpRollback int

fun exec_op :: "reader_op \<Rightarrow> Reader \<Rightarrow> Reader" where
  "exec_op OpNext r = snd (Next r)"
| "exec_op (OpSkip n) r = Skip n r"
| "exec_op (OpRollback n) r = Rollback n r"

definition run_ops :: "reader_op list \<Rightarrow> Reader \<Rightarrow> Reader" where
  "run_ops ops r = fold exec_op ops r"

text \<open>
  Every \<open>Skip(n)\<close> of the sequence, at the moment it is executed, moves forward
  (\<open>n \<ge> 0\<close>) and does not overflow the position.
\<close>

fun forward_skips :: "reader_op list \<Rightarrow> Reader \<Rightarrow> bool" where
  "forward_skips [] r = True"
| "forward_skips (OpSkip n # ops) r =
     (0 \<le> n \<and> in_int64 (pos r + n) \<and> forward_skips ops (Skip n r))"
| "forward_skips (OpNext # ops) r = forward_skips ops (snd (Next r))"
| "forward_skips (OpRollback n # ops) r = forward_skips ops (Rollback n r)"

section \<open>The disassembler\<close>

datatype CommandElem = ElemString string | ElemPointer int | ElemStore string

record Opcode =
  OpType :: int
  Module :: int
  Function :: int
  Overload :: int

record Command =
  CmdOffset :: int
  Kepago :: "CommandElem list"
  Hidden :: bool
  Unhide :: bool
  IsJmp :: bool
  CType :: string
  CmdOpcode :: string
  LineNo :: int
  ResIdx :: int

text \<open>The options the disassembly itself reads.\<close>

record Options =
  SeparateStrings :: bool
  ReadDebugSymbols :: bool
  ControlCodes :: bool
  ForcedTarget :: EngineMode
  StartAddress :: int
  EndAddress :: int

record SeenMap =
  MapEntryPoints :: "int list"

text \<open>
  \<open>Error\<close> stands for the message \<open>disassembly error at offset ...\<close>: the offset and the
  error printed in it, \<open>None\<close> for the empty string.
\<close>

record DisassemblyResult =
  Commands :: "Command list"
  ResStrs :: "string list"
  Pointers :: "int \<rightharpoonup> bool"
  ResMode :: EngineMode
  ResVersion :: "int list"
  Header :: FileHeader
  Error :: "(int \<times> rd_error) option"
  ResSeenMap :: SeenMap

definition byte_char :: "byte \<Rightarrow> char" where
  "byte_char b = char_of (unat b)"

definition backslash :: char where
  "backslash = CHR 0x5C"

definition OpcodeString :: "Opcode \<Rightarrow> string" where
  "OpcodeString op =
     fmt_d (OpType op) @ '':'' @ fmt_0d 3 (Module op) @ '':'' @ fmt_0d 5 (Function op) @
     '','' @ fmt_d (Overload op)"

text \<open>\<open>Command{Offset: offset}\<close>: every other field has its zero value.\<close>

definition new_cmd :: "int \<Rightarrow> Command" where
  "new_cmd offset = \<lparr>CmdOffset = offset, Kepago = [], Hidden = False, Unhide = False,
     IsJmp = False, CType = [], CmdOpcode = [], LineNo = 0, ResIdx = 0\<rparr>"

definition append_cmd :: "Command \<Rightarrow> DisassemblyResult \<Rightarrow> DisassemblyResult" where
  "append_cmd cmd result = result\<lparr>Commands := Commands result @ [cmd]\<rparr>"

definition isShiftJISLead :: "byte \<Rightarrow> bool" where
  "isShiftJISLead b =
     ((0x81 \<le> b \<and> b \<le> 0x9f) \<or> (0xe0 \<le> b \<and> b \<le> 0xef) \<or> (0xf0 \<le> b \<and> b \<le> 0xfc))"

subsection \<open>Data elements\<close>

lemma Next_progress:
  "Next r = (Inr b, r') \<Longrightarrow> limit r' = limit r \<and> pos r' = pos r + 1 \<and> pos r < limit r"
  by (auto simp: Next_def split: if_splits option.splits)

lemma Next_error: "Next r = (Inl e, r') \<Longrightarrow> r' = r"
  by (auto simp: Next_def split: if_splits option.splits)

text \<open>The loop of \<open>readStringData\<close> over the bytes of a literal string.\<close>

function string_lit_loop :: "Reader \<Rightarrow> string \<Rightarrow> string rd_result" where
  "string_lit_loop r sb =
     (case Next r of
        (Inl ReaderPanic, r1) \<Rightarrow> (Inl ReaderPanic, r1)
      | (Inl e, r1) \<Rightarrow> (Inr sb, r1)
      | (Inr c, r1) \<Rightarrow>
          if c = 0x22 then (Inr (sb @ [CHR 0x22]), r1)
          else string_lit_loop r1 (sb @ [byte_char c]))"
  by pat_completeness auto
termination
  by (relation "measure (\<lambda>(r, sb). nat (limit r - pos r))") (auto dest!: Next_progress [OF sym])

declare string_lit_loop.simps [simp del]

definition str_var_prefix :: "byte \<Rightarrow> string" where
  "str_var_prefix varType =
     (if varType = 0x0c then ''strS''
      else if varType = 0x12 then ''strM''
      else ''str_'' @ fmt_02x varType)"

definition readStrVar :: "nat \<Rightarrow> Reader \<Rightarrow> string rd_result option" where
  "readStrVar n r =
     (case Next r of
        (Inl e, r1) \<Rightarrow> Some (Inl e, r1)
      | (Inr varType, r1) \<Rightarrow>
          (case Expect 0x5b r1 of
             (Inl ReaderPanic, r2) \<Rightarrow> Some (Inl ReaderPanic, r2)
           | (res, r2) \<Rightarrow>
               (case GetExpression n (if isl res then Rollback 1 r2 else r2) of
                  None \<Rightarrow> None
                | Some (Inl e, r3) \<Rightarrow> Some (Inl e, r3)
                | Some (Inr idx, r3) \<Rightarrow>
                    (case Expect 0x5d r3 of
                       (Inl ReaderPanic, r4) \<Rightarrow> Some (Inl ReaderPanic, r4)
                     | (_, r4) \<Rightarrow>
                         Some (Inr (str_var_prefix varType @ ''['' @ idx @ '']''), r4)))))"

definition readStringData :: "nat \<Rightarrow> Reader \<Rightarrow> string rd_result option" where
  "readStringData n r =
     (case Next r of
        (Inl e, r1) \<Rightarrow> Some (Inl e, r1)
      | (Inr b, r1) \<Rightarrow>
          if b = 0x22 then Some (string_lit_loop r1 [CHR 0x22])
          else if b = 0x0a then readStrVar n r1
          else Some (Inl (UnexpectedStringByte b), Rollback 1 r1))"

definition GetData :: "nat \<Rightarrow> Reader \<Rightarrow> string rd_result option" where
  "GetData n r =
     (case Peek r of
        (Inl e, r1) \<Rightarrow> Some (Inl e, r1)
      | (Inr b, r1) \<Rightarrow>
          if b = 0x22 \<or> b = 0x0a then readStringData n r1 else GetExpression n r1)"

subsection \<open>Function calls\<close>

text \<open>The loop \<open>for i := 0; i < argc; i++\<close> of \<open>readFuncArgs\<close>; \<open>k\<close> arguments are left.\<close>

fun read_args :: "nat \<Rightarrow> nat \<Rightarrow> Reader \<Rightarrow> string list \<Rightarrow> (string list) rd_result option" where
  "read_args n 0 r args = Some (Inr args, r)"
| "read_args n (Suc k) r args =
     (case GetData n r of
        None \<Rightarrow> None
      | Some (Inl e, r1) \<Rightarrow> Some (Inl e, r1)
      | Some (Inr arg, r1) \<Rightarrow> read_args n k r1 (args @ [arg]))"

definition readFuncArgs :: "nat \<Rightarrow> Reader \<Rightarrow> int \<Rightarrow> (string list) rd_result option" where
  "readFuncArgs n r argc =
     (case Peek r of
        (Inl e, r1) \<Rightarrow> Some (Inl e, r1)
      | (Inr b, r1) \<Rightarrow>
          (case read_args n (nat argc) (if b = 0x28 then snd (Next r1) else r1) [] of
             None \<Rightarrow> None
           | Some (Inl e, r2) \<Rightarrow> Some (Inl e, r2)
           | Some (Inr args, r2) \<Rightarrow>
               (case Peek r2 of
                  (Inl ReaderPanic, r3) \<Rightarrow> Some (Inl ReaderPanic, r3)
                | (Inl e, r3) \<Rightarrow> Some (Inr args, r3)
                | (Inr b2, r3) \<Rightarrow>
                    Some (Inr args, if b2 = 0x29 then snd (Next r3) else r3))))"

text \<open>
  \<open>handleGoto\<close> and \<open>handleCondGoto\<close> receive the result and the reader but only fill in
  the command.
\<close>

definition handleGoto :: "Command \<Rightarrow> Opcode \<Rightarrow> string list \<Rightarrow> Command" where
  "handleGoto cmd op args =
     (let name = (if Function op = 3 then ''gosub'' else ''goto'') in
      cmd\<lparr>IsJmp := (Function op = 1),
          Kepago := (if args \<noteq> []
                     then [ElemString name, ElemString (''('' @ hd args @ '')'')]
                     else [ElemString name])\<rparr>)"

definition join_args :: "string list \<Rightarrow> string" where
  "join_args args = (case args of [] \<Rightarrow> [] | a # as \<Rightarrow> a @ concat (map (\<lambda>x. '', '' @ x) as))"

definition handleCondGoto :: "Command \<Rightarrow> Opcode \<Rightarrow> string list \<Rightarrow> Command" where
  "handleCondGoto cmd op args =
     (let name = (if Function op = 8 then ''goto_unless''
                  else if Function op = 9 then ''gosub_if''
                  else if Function op = 16 then ''gosub_unless''
                  else ''goto_if'') in
      cmd\<lparr>Kepago := [ElemString (if args \<noteq> [] then name @ ''('' @ join_args args @ '')''
                                  else name)]\<rparr>)"

definition readFunction ::
  "nat \<Rightarrow> Reader \<Rightarrow> DisassemblyResult \<Rightarrow> int \<Rightarrow> Opcode \<Rightarrow> int \<Rightarrow>
   (unit rd_result \<times> DisassemblyResult) option" where
  "readFunction n r result offset op argc =
     (let cmd = new_cmd offset; opStr = OpcodeString op in
      case readFuncArgs n r argc of
        None \<Rightarrow> None
      | Some (Inl ReaderPanic, r1) \<Rightarrow> Some ((Inl ReaderPanic, r1), result)
      | Some (Inl e, r1) \<Rightarrow>
          Some ((Inr (), r1),
                append_cmd (cmd\<lparr>Kepago := [ElemString (''op<'' @ opStr @ ''>(?)'')],
                                CmdOpcode := opStr\<rparr>) result)
      | Some (Inr args, r1) \<Rightarrow>
          Some ((Inr (), r1),
                append_cmd
                  (if Module op = 1 \<and> (Function op = 1 \<or> Function op = 3)
                     then handleGoto cmd op args
                   else if Module op = 1 \<and> (Function op = 5 \<or> Function op = 8 \<or>
                                              Function op = 9 \<or> Function op = 16)
                     then handleCondGoto cmd op args
                   else if Module op = 5 \<and> Function op = 1
                     then cmd\<lparr>Kepago := [ElemString ''ret''], IsJmp := True\<rparr>
                   else cmd\<lparr>Kepago := [ElemString (''op<'' @ opStr @ ''>'' @
                                    (if args \<noteq> [] then ''('' @ join_args args @ '')'' else []))],
                             CmdOpcode := opStr\<rparr>)
                  result))"

subsection \<open>Assignments\<close>

definition assign_op :: "byte \<Rightarrow> string" where
  "assign_op opByte =
     (if opByte = 0x14 then ''=''
      else if opByte = 0x15 then ''+=''
      else if opByte = 0x16 then ''-=''
      else if opByte = 0x17 then ''*=''
      else if opByte = 0x18 then ''/=''
      else if opByte = 0x19 then ''%=''
      else if opByte = 0x1a then ''&=''
      else if opByte = 0x1b then ''|=''
      else if opByte = 0x1c then ''^=''
      else if opByte = 0x1d then ''<<=''
      else if opByte = 0x1e then ''>>=''
      else ''?='' @ fmt_02x opByte @ ''='')"

definition readAssignment ::
  "nat \<Rightarrow> Reader \<Rightarrow> DisassemblyResult \<Rightarrow> int \<Rightarrow> (unit rd_result \<times> DisassemblyResult) option" where
  "readAssignment n r result offset =
     (case readIntVar n r of
        None \<Rightarrow> None
      | Some (Inl e, r1) \<Rightarrow> Some ((Inl e, r1), result)
      | Some (Inr dest, r1) \<Rightarrow>
          (case Next r1 of
             (Inl e, r2) \<Rightarrow> Some ((Inl e, r2), result)
           | (Inr opByte, r2) \<Rightarrow>
               (case Expect 0x5c r2 of
                  (Inl ReaderPanic, r3) \<Rightarrow> Some ((Inl ReaderPanic, r3), result)
                | (_, r3) \<Rightarrow>
                    (case GetExpression n r3 of
                       None \<Rightarrow> None
                     | Some (Inl ReaderPanic, r4) \<Rightarrow> Some ((Inl ReaderPanic, r4), result)
                     | Some (res, r4) \<Rightarrow>
                         (case Expect 0x5c r4 of
                            (Inl ReaderPanic, r5) \<Rightarrow> Some ((Inl ReaderPanic, r5), result)
                          | (_, r5) \<Rightarrow>
                              Some ((Inr (), r5),
                                    append_cmd
                                      ((new_cmd offset)\<lparr>Kepago :=
                                         [ElemString (dest @ '' '' @ assign_op opByte @ '' '' @
                                            (case res of Inl e \<Rightarrow> ''???'' | Inr src \<Rightarrow> src))]\<rparr>)
                                      result))))))"

subsection \<open>Text output\<close>

text \<open>The inner loop of \<open>readTextout\<close> that follows a \<open>0x04\<close> byte.\<close>

function ruby_loop :: "Reader \<Rightarrow> string \<Rightarrow> string rd_result" where
  "ruby_loop r text =
     (if AtEnd r then (Inr text, r)
      else case Next r of
        (Inl ReaderPanic, r1) \<Rightarrow> (Inl ReaderPanic, r1)
      | (Inl e, r1) \<Rightarrow> (Inr text, r1)
      | (Inr c, r1) \<Rightarrow>
          if c = 0x05 then ruby_loop r1 (text @ ''}{'')
          else if c = 0x06 then (Inr (text @ ''}''), r1)
          else if isShiftJISLead c \<and> \<not> AtEnd r1 then
            (case Next r1 of
               (Inl ReaderPanic, r2) \<Rightarrow> (Inl ReaderPanic, r2)
             | (Inl e, r2) \<Rightarrow> ruby_loop r2 (text @ [byte_char c, byte_char 0])
             | (Inr c2, r2) \<Rightarrow> ruby_loop r2 (text @ [byte_char c, byte_char c2]))
          else ruby_loop r1 (text @ [byte_char c]))"
  by pat_completeness auto
termination
  by (relation "measure (\<lambda>(r, tx). nat (limit r - pos r))")
    (auto dest!: Next_progress [OF sym] Next_error [OF sym])

declare ruby_loop.simps [simp del]

lemma Peek_Next: "Peek r = (Inr b, r1) \<Longrightarrow> r1 = r \<and> Next r = (Inr b, r\<lparr>pos := pos r + 1\<rparr>)"
  by (auto simp: Peek_def Next_def split: if_splits option.splits)

lemma ruby_loop_progress: "ruby_loop r tx = (x, r') \<Longrightarrow> limit r' = limit r \<and> pos r \<le> pos r'"
proof (induction "nat (limit r - pos r)" arbitrary: r tx x r' rule: less_induct)
  case less
  note eq = less.prems [unfolded ruby_loop.simps [of r tx]]
  have ih: "limit r'' = limit r \<and> pos r \<le> pos r''"
    if "ruby_loop r0 t0 = (x0, r'')" "limit r0 = limit r" "pos r < pos r0" "pos r < limit r"
    for r0 t0 x0 r''
    using less.hyps [of r0 t0 x0 r''] that by auto
  show ?case
  proof (cases "AtEnd r")
    case True
    with eq show ?thesis by simp
  next
    case False
    obtain res r1 where n: "Next r = (res, r1)"
      by (cases "Next r")
    show ?thesis
    proof (cases res)
      case (Inl e)
      with n have "r1 = r"
        by (auto dest: Next_error)
      with eq False n Inl show ?thesis
        by (auto split: rd_error.splits)
    next
      case (Inr c)
      with n have p: "limit r1 = limit r" "pos r1 = pos r + 1" "pos r < limit r"
        by (auto dest: Next_progress)
      obtain res2 r2 where n2: "Next r1 = (res2, r2)"
        by (cases "Next r1")
      have q: "limit r2 = limit r1" "pos r1 \<le> pos r2"
        using n2 by (cases res2; auto dest: Next_error Next_progress)+
      from eq False n Inr n2 show ?thesis
        using ih [of r1 _ x r'] ih [of r2 _ x r'] p q
        by (auto split: if_splits sum.splits rd_error.splits)
    qed
  qed
qed

text \<open>The bytes at which a text run stops: \<open>0x00 # $ \n , @ !\<close>.\<close>

definition is_text_end :: "byte \<Rightarrow> bool" where
  "is_text_end b =
     (b = 0x00 \<or> b = 0x23 \<or> b = 0x24 \<or> b = 0x0a \<or> b = 0x2c \<or> b = 0x40 \<or> b = 0x21)"

text \<open>
  The loop \<open>for !r.AtEnd()\<close> of \<open>readTextout\<close>. In Go a \<open>break\<close> inside a \<open>switch\<close> case
  leaves the \<open>switch\<close>, not the enclosing \<open>for\<close>: after the case for \<open>0x03\<close> (and after
  the one for a Shift-JIS lead byte at the end of the data) the loop goes on with its
  next iteration.
\<close>

function textout_loop :: "Options \<Rightarrow> Reader \<Rightarrow> string \<Rightarrow> string rd_result" where
  "textout_loop opts r tx =
     (if AtEnd r then (Inr tx, r)
      else case Peek r of
        (Inl ReaderPanic, r1) \<Rightarrow> (Inl ReaderPanic, r1)
      | (Inl e, r1) \<Rightarrow> (Inr tx, r1)
      | (Inr b, r1) \<Rightarrow>
          if is_text_end b then (Inr tx, r1)
          else
            (let r2 = snd (Next r1) in
             if b = 0x03 then textout_loop opts r2 (tx @ [backslash, CHR ''p''])
             else if b = 0x04 then
               (case ruby_loop r2 (tx @ ''{ruby '') of
                  (Inl e, r3) \<Rightarrow> (Inl e, r3)
                | (Inr tx', r3) \<Rightarrow> textout_loop opts r3 tx')
             else if b = 0x01 then textout_loop opts r2 (tx @ [backslash, CHR ''n''])
             else if b = 0x02 then textout_loop opts r2 (tx @ [backslash, CHR ''w''])
             else if isShiftJISLead b then
               (case Next r2 of
                  (Inl ReaderPanic, r3) \<Rightarrow> (Inl ReaderPanic, r3)
                | (Inl e, r3) \<Rightarrow> textout_loop opts r3 (tx @ [byte_char b])
                | (Inr b2, r3) \<Rightarrow> textout_loop opts r3 (tx @ [byte_char b, byte_char b2]))
             else if 0x20 \<le> b \<and> b < 0x80 then textout_loop opts r2 (tx @ [byte_char b])
             else textout_loop opts r2
                    (if ControlCodes opts then tx @ [backslash] @ ''x{'' @ fmt_02x b @ ''}''
                     else tx)))"
  by pat_completeness auto
termination
  by (relation "measure (\<lambda>(opts, r, tx). nat (limit r - pos r))")
    (auto simp: AtEnd_def dest!: Peek_Next [OF sym] Next_progress [OF sym] Next_error [OF sym]
       ruby_loop_progress [OF sym])

declare textout_loop.simps [simp del]

definition readTextout ::
  "Reader \<Rightarrow> DisassemblyResult \<Rightarrow> int \<Rightarrow> Options \<Rightarrow> unit rd_result \<times> DisassemblyResult" where
  "readTextout r result offset opts =
     (case textout_loop opts r [] of
        (Inl e, r1) \<Rightarrow> ((Inl e, r1), result)
      | (Inr tx, r1) \<Rightarrow>
          if tx = [] then ((Inr (), r1), result)
          else
            (let resIdx = int (length (ResStrs result));
                 cmd = (new_cmd offset)\<lparr>CType := ''textout'', ResIdx := resIdx,
                         Kepago := [ElemString
                           (if SeparateStrings opts then ''<res_'' @ fmt_0d 4 resIdx @ ''>''
                            else [CHR 0x27] @ tx @ [CHR 0x27])]\<rparr>
             in ((Inr (), r1),
                 append_cmd cmd (result\<lparr>ResStrs := ResStrs result @ [tx]\<rparr>))))"

subsection \<open>Commands and the main loop\<close>

definition int32 :: "int \<Rightarrow> int" where
  "int32 x = sint (word_of_int x :: 32 word)"

definition read_call_header :: "Reader \<Rightarrow> (Opcode \<times> int) rd_result" where
  "read_call_header r =
     (case Next r of
        (Inl e, r1) \<Rightarrow> (Inl e, r1)
      | (Inr opType, r1) \<Rightarrow>
     (case Next r1 of
        (Inl e, r2) \<Rightarrow> (Inl e, r2)
      | (Inr opModule, r2) \<Rightarrow>
     (case GetInt16 r2 of
        (Inl e, r3) \<Rightarrow> (Inl e, r3)
      | (Inr funcNum, r3) \<Rightarrow>
     (case GetInt16 r3 of
        (Inl e, r4) \<Rightarrow> (Inl e, r4)
      | (Inr argc, r4) \<Rightarrow>
     (case Next r4 of
        (Inl e, r5) \<Rightarrow> (Inl e, r5)
      | (Inr overload, r5) \<Rightarrow>
          (Inr (\<lparr>OpType = uint opType, Module = uint opModule, Function = funcNum,
                  Overload = uint overload\<rparr>, argc), r5))))))"

definition kidoku_cmd :: "FileHeader \<Rightarrow> Options \<Rightarrow> int \<Rightarrow> int \<Rightarrow> Command \<times> bool" where
  "kidoku_cmd hdr opts offset idx =
     (let kidokuVal = (if 0 \<le> idx \<and> idx < int (length (KidokuLnums hdr))
                       then KidokuLnums hdr ! nat idx else 0);
          entryIdx = int32 (kidokuVal - 1000000)
      in if entryIdx \<ge> 0 then
           ((new_cmd offset)\<lparr>Unhide := True, CType := ''entrypoint'',
              Kepago := [ElemString (''#entrypoint '' @ fmt_0d 3 entryIdx @ '' // Z'' @
                                     fmt_0d 2 entryIdx)]\<rparr>, True)
         else
           ((new_cmd offset)\<lparr>Hidden := \<not> ReadDebugSymbols opts, CType := ''kidoku'',
              Kepago := [ElemString (''{- kidoku '' @ fmt_0d 3 idx @ '' -}'')]\<rparr>, False))"

definition readCommand ::
  "nat \<Rightarrow> Reader \<Rightarrow> FileHeader \<Rightarrow> DisassemblyResult \<Rightarrow> Options \<Rightarrow>
   (unit rd_result \<times> DisassemblyResult) option" where
  "readCommand n r hdr result opts =
     (let offset = RelPos r in
      case Next r of
        (Inl e, r1) \<Rightarrow> Some ((Inl e, r1), result)
      | (Inr b, r1) \<Rightarrow>
          if b = 0x00 then
            Some ((Inr (), r1),
                  append_cmd ((new_cmd offset)\<lparr>IsJmp := True, Kepago := [ElemString ''halt'']\<rparr>)
                    result)
          else if b = 0x23 then
            (case read_call_header r1 of
               (Inl e, r2) \<Rightarrow> Some ((Inl e, r2), result)
             | (Inr (op, argc), r2) \<Rightarrow> readFunction n r2 result offset op argc)
          else if b = 0x24 then readAssignment n r1 result offset
          else if b = 0x0a then
            (case GetIntForMode r1 of
               (Inl e, r2) \<Rightarrow> Some ((Inl e, r2), result)
             | (Inr lineNum, r2) \<Rightarrow>
                 Some ((Inr (), r2),
                       append_cmd
                         ((new_cmd offset)\<lparr>Hidden := \<not> ReadDebugSymbols opts, CType := ''dbline'',
                            LineNo := lineNum,
                            Kepago := [ElemString (''#line '' @ fmt_d lineNum)]\<rparr>)
                         result))
          else if b = 0x2c then
            Some ((Inr (), r1),
                  append_cmd
                    ((new_cmd offset)\<lparr>Hidden := \<not> ReadDebugSymbols opts, CType := ''debug'',
                       Kepago := [ElemString '','']\<rparr>)
                    result)
          else if b = 0x40 \<or> b = 0x21 then
            (case GetIntForMode r1 of
               (Inl e, r2) \<Rightarrow> Some ((Inl e, r2), result)
             | (Inr idx, r2) \<Rightarrow>
                 (case kidoku_cmd hdr opts offset idx of
                    (cmd, is_entry) \<Rightarrow>
                      Some ((Inr (), r2),
                            append_cmd cmd
                              (if is_entry
                               then result\<lparr>ResSeenMap := (ResSeenMap result)
                                      \<lparr>MapEntryPoints :=
                                         MapEntryPoints (ResSeenMap result) @ [offset]\<rparr>\<rparr>
                               else result))))
          else Some (readTextout (Rollback 1 r1) result offset opts))"

text \<open>
  The main loop of \<open>Disassemble\<close>. A Go error ends the loop and is recorded in the
  result; a panic ends the disassembly without a result (\<open>Inl\<close>).
\<close>

fun disasm_loop ::
  "nat \<Rightarrow> Reader \<Rightarrow> FileHeader \<Rightarrow> DisassemblyResult \<Rightarrow> Options \<Rightarrow> int \<Rightarrow>
   (unit + DisassemblyResult) option" where
  "disasm_loop 0 r hdr result opts startAddr = None"
| "disasm_loop (Suc n) r hdr result opts startAddr =
     (if AtEnd r then Some (Inr result)
      else
        (let cmdOffset = RelPos r in
         case readCommand n r hdr result opts of
           None \<Rightarrow> None
         | Some ((Inl ReaderPanic, r1), result1) \<Rightarrow> Some (Inl ())
         | Some ((Inl e, r1), result1) \<Rightarrow>
             Some (Inr (result1\<lparr>Error := Some (add64 cmdOffset startAddr, e)\<rparr>))
         | Some ((Inr u, r1), result1) \<Rightarrow> disasm_loop n r1 hdr result1 opts startAddr))"

subsection \<open>The full header and \<open>Disassemble\<close>\<close>

text \<open>\<open>count\<close> values read by \<open>GetInt\<close> at \<open>base\<close>, \<open>base + 4\<close>, ...\<close>

fun read_ints :: "Buffer \<Rightarrow> int \<Rightarrow> nat \<Rightarrow> int list option" where
  "read_ints arr base 0 = Some []"
| "read_ints arr base (Suc k) =
     (case GetInt arr base of
        None \<Rightarrow> None
      | Some v \<Rightarrow> map_option ((#) v) (read_ints arr (base + 4) k))"

text \<open>The names of the dramatis personae: a length, then the bytes.\<close>

fun read_names :: "Buffer \<Rightarrow> byte list \<Rightarrow> int \<Rightarrow> nat \<Rightarrow> byte list list option" where
  "read_names arr spare offset 0 = Some []"
| "read_names arr spare offset (Suc k) =
     (case GetInt arr offset of
        None \<Rightarrow> None
      | Some nameLen \<Rightarrow>
          (case ReadSz arr spare (offset + 4) nameLen of
             None \<Rightarrow> None
           | Some name \<Rightarrow>
               map_option ((#) name) (read_names arr spare (offset + 4 + nameLen) k)))"

text \<open>\<open>make([]T, count)\<close> panics on a negative count.\<close>

definition ReadFullHeader :: "Buffer \<Rightarrow> byte list \<Rightarrow> bool \<Rightarrow> header_error + FileHeader" where
  "ReadFullHeader arr spare archived =
     (case ReadFileHeader arr spare archived of
        Inl e \<Rightarrow> Inl e
      | Inr hdr \<Rightarrow>
          if HeaderVersion hdr = HeaderV1 then
            (case (read_ints arr 0x30 100, GetInt arr 0x20) of
               (Some eps, Some count) \<Rightarrow>
                 (if count < 0 then Inl HeaderPanic
                  else case read_ints arr 0x1cc (nat count) of
                    None \<Rightarrow> Inl HeaderPanic
                  | Some ks \<Rightarrow> Inr (hdr\<lparr>EntryPoints := eps, KidokuLnums := ks\<rparr>))
             | _ \<Rightarrow> Inl HeaderPanic)
          else if HeaderVersion hdr = HeaderV2 then
            (case (read_ints arr 0x34 100, GetInt arr 0x08, GetInt arr 0x0c) of
               (Some eps, Some t1Offset, Some count) \<Rightarrow>
                 (if count < 0 then Inl HeaderPanic
                  else case (read_ints arr t1Offset (nat count), GetInt arr 0x14, GetInt arr 0x18) of
                    (Some ks, Some dpOffset, Some dpCount) \<Rightarrow>
                      (if dpCount < 0 then Inl HeaderPanic
                       else case read_names arr spare dpOffset (nat dpCount) of
                         None \<Rightarrow> Inl HeaderPanic
                       | Some names \<Rightarrow>
                           Inr (hdr\<lparr>EntryPoints := eps, KidokuLnums := ks,
                                    DramatisPersonae := names\<rparr>))
                  | _ \<Rightarrow> Inl HeaderPanic)
             | _ \<Rightarrow> Inl HeaderPanic)
          else Inr hdr)"

datatype disasm_error = HeaderFailed header_error | DisasmPanic

definition Disassemble ::
  "nat \<Rightarrow> Buffer \<Rightarrow> byte list \<Rightarrow> Options \<Rightarrow> (disasm_error + DisassemblyResult) option" where
  "Disassemble n arr spare opts =
     (case ReadFullHeader arr spare True of
        Inl e \<Rightarrow> Some (Inl (HeaderFailed e))
      | Inr hdr \<Rightarrow>
          (let md = (if ForcedTarget opts = ModeNone
                     then (if HeaderVersion hdr = 1 then ModeAvg2000 else ModeRealLive)
                     else ForcedTarget opts);
               version = (if md = ModeAvg2000 then [1, 0, 0, 0] else [1, 2, 7, 0]);
               startAddr = (if StartAddress opts > DataOffset hdr \<and> StartAddress opts < Len arr
                            then StartAddress opts else DataOffset hdr);
               endAddr = (if EndAddress opts > 0 \<and> EndAddress opts < Len arr \<and>
                             EndAddress opts > startAddr
                          then EndAddress opts else Len arr);
               reader = NewReader arr startAddr endAddr md;
               result = \<lparr>Commands = [], ResStrs = [], Pointers = Map.empty, ResMode = md,
                          ResVersion = version, Header = hdr, Error = None,
                          ResSeenMap = \<lparr>MapEntryPoints = []\<rparr>\<rparr>
           in case disasm_loop n reader hdr result opts startAddr of
                None \<Rightarrow> None
              | Some (Inl u) \<Rightarrow> Some (Inl DisasmPanic)
              | Some (Inr res) \<Rightarrow> Some (Inr res)))"

definition DefaultOptions :: Options where
  "DefaultOptions = \<lparr>SeparateStrings = True, ReadDebugSymbols = False, ControlCodes = True,
     ForcedTarget = ModeNone, StartAddress = - 1, EndAddress = - 1\<rparr>"

text \<open>
  An example: a RealLive file with an empty kidoku table whose code section, at offset
  452, is the one call \<open>goto(1000)\<close>; its parsed header; and the result of disassembling it.
\<close>

definition goto_file :: Buffer where
  "goto_file = bytes_of ''KPRL'' @ [0x12, 0x27, 0, 0] @ replicate 24 0 @ [0xC4, 0x01, 0, 0] @
     [13, 0, 0, 0] @ replicate 412 0 @ [0x23, 0, 1, 1, 0, 1, 0, 0, 0xFF, 0xE8, 3, 0, 0]"

definition goto_header :: FileHeader where
  "goto_header = \<lparr>HeaderVersion = 2, CompilerVersion = 10002, DataOffset = 452,
     UncompressedSize = 13, CompressedSize = - 1, IsCompressed = False, Int0x2C = 0,
     EntryPoints = replicate 100 0, KidokuLnums = [], DramatisPersonae = [], Archived = True\<rparr>"

definition goto_result :: DisassemblyResult where
  "goto_result = \<lparr>Commands = [\<lparr>CmdOffset = 0,
        Kepago = [ElemString ''goto'', ElemString ''(1000)''], Hidden = False, Unhide = False,
        IsJmp = True, CType = [], CmdOpcode = [], LineNo = 0, ResIdx = 0\<rparr>],
     ResStrs = [], Pointers = Map.empty, ResMode = ModeRealLive, ResVersion = [1, 2, 7, 0],
     Header = goto_header, Error = None, ResSeenMap = \<lparr>MapEntryPoints = []\<rparr>\<rparr>"

section \<open>The Siglus LZ77 codec\<close>

definition lookback :: int where "lookback = 4096"
definition level :: int where "level = 17"
definition acceptLevel :: int where "acceptLevel = 3"

datatype lz_panic = IndexOutOfRange

subsection \<open>\<open>Decompress\<close>\<close>

record dec_state =
  dout :: "byte list"
  dst :: int
  src :: "byte list"

text \<open>
  The copy loop \<open>for j := 0; j < copyLen && dst < decLen; j++\<close> of a back-reference. The
  read \<open>out[dst-offset]\<close> panics when \<open>offset\<close> exceeds \<open>dst\<close>.
\<close>

fun copy_loop :: "int \<Rightarrow> int \<Rightarrow> nat \<Rightarrow> byte list \<Rightarrow> int \<Rightarrow> lz_panic + (byte list \<times> int)" where
  "copy_loop decLen offset 0 out d = Inr (out, d)"
| "copy_loop decLen offset (Suc j) out d =
     (if d < decLen then
        (if d - offset < 0 \<or> d - offset \<ge> int (length out) \<or> d < 0 \<or> d \<ge> int (length out)
         then Inl IndexOutOfRange
         else copy_loop decLen offset j (out[nat d := out ! nat (d - offset)]) (d + 1))
      else Inr (out, d))"

text \<open>
  The loop \<open>for i := 0; i < 8 && dst < decLen; i++\<close> over the bits of one flag byte;
  \<open>k\<close> is the number of bits left.
\<close>

fun dec_group :: "int \<Rightarrow> nat \<Rightarrow> byte \<Rightarrow> dec_state \<Rightarrow> lz_panic + dec_state" where
  "dec_group decLen 0 flag s = Inr s"
| "dec_group decLen (Suc k) flag s =
     (if dst s < decLen then
        (case src s of
           [] \<Rightarrow> Inr s
         | b0 # rest \<Rightarrow>
             if flag AND 1 \<noteq> 0 then
               (if dst s < 0 \<or> dst s \<ge> int (length (dout s)) then Inl IndexOutOfRange
                else dec_group decLen k (drop_bit 1 flag)
                       (s\<lparr>dout := (dout s)[nat (dst s) := b0], dst := dst s + 1, src := rest\<rparr>))
             else
               (case rest of
                  [] \<Rightarrow> Inr s
                | b1 # rest2 \<Rightarrow>
                    (let ref = le_u16 b0 b1;
                         copyLen = uint (ref AND 0x0F) + 2;
                         offset = uint (drop_bit 4 ref)
                     in case copy_loop decLen offset (nat copyLen) (dout s) (dst s) of
                          Inl e \<Rightarrow> Inl e
                        | Inr (out', d') \<Rightarrow>
                            dec_group decLen k (drop_bit 1 flag)
                              (s\<lparr>dout := out', dst := d', src := rest2\<rparr>))))
      else Inr s)"

lemma dec_group_src: "dec_group decLen k flag s = Inr s' \<Longrightarrow> length (src s') \<le> length (src s)"
proof (induction k arbitrary: flag s)
  case 0
  then show ?case by simp
next
  case (Suc k)
  show ?case
  proof (cases "dst s < decLen")
    case False
    with Suc.prems show ?thesis by simp
  next
    case True
    show ?thesis
    proof (cases "src s")
      case Nil
      with Suc.prems True show ?thesis by simp
    next
      case (Cons b0 rest)
      show ?thesis
      proof (cases "flag AND 1 \<noteq> 0")
        case lit: True
        with Suc.prems True Cons have
          "dec_group decLen k (drop_bit 1 flag)
             (s\<lparr>dout := (dout s)[nat (dst s) := b0], dst := dst s + 1, src := rest\<rparr>) = Inr s'"
          by (auto split: if_splits)
        from Suc.IH [OF this] Cons show ?thesis by simp
      next
        case ref: False
        show ?thesis
        proof (cases rest)
          case Nil
          with Suc.prems True Cons ref show ?thesis by simp
        next
          case (Cons b1 rest2)
          with Suc.prems True \<open>src s = b0 # rest\<close> ref obtain out' d' where
            "dec_group decLen k (drop_bit 1 flag) (s\<lparr>dout := out', dst := d', src := rest2\<rparr>) = Inr s'"
            by (auto simp: Let_def split: sum.splits)
          from Suc.IH [OF this] Cons \<open>src s = b0 # rest\<close> show ?thesis by simp
        qed
      qed
    qed
  qed
qed

text \<open>The loop \<open>for dst < decLen\<close>: each round takes the flag byte off \<open>src\<close>.\<close>

function dec_loop :: "int \<Rightarrow> dec_state \<Rightarrow> lz_panic + dec_state" where
  "dec_loop decLen s =
     (if dst s < decLen then
        (case src s of
           [] \<Rightarrow> Inr s
         | flag # rest \<Rightarrow>
             (case dec_group decLen 8 flag (s\<lparr>src := rest\<rparr>) of
                Inl e \<Rightarrow> Inl e
              | Inr s' \<Rightarrow> dec_loop decLen s'))
      else Inr s)"
  by pat_completeness auto
termination
  by (relation "measure (\<lambda>(decLen, s). length (src s))") (auto dest!: dec_group_src)

declare dec_loop.simps [simp del]

text \<open>\<open>Decompress\<close> returns \<open>nil\<close> (the empty slice) for an input shorter than 8 bytes.\<close>

definition Decompress :: "byte list \<Rightarrow> lz_panic + byte list" where
  "Decompress dat =
     (if length dat < 8 then Inr []
      else
        (let decLen = uint (le_u32 (dat ! 4) (dat ! 5) (dat ! 6) (dat ! 7)) in
         case dec_loop decLen \<lparr>dout = replicate (nat decLen) 0, dst = 0, src = drop 8 dat\<rparr> of
           Inl e \<Rightarrow> Inl e
         | Inr s \<Rightarrow> Inr (dout s)))"

subsection \<open>\<open>searchData\<close>\<close>

text \<open>
  The inner loop \<open>for matchLen < maxMatch && buf[start+matchLen] == buf[pos+matchLen]\<close>.
  \<open>searchData\<close> calls it with \<open>0 \<le> start\<close> and \<open>pos + maxMatch \<le> len(buf)\<close>, so both reads
  are in range.
\<close>

function match_loop :: "byte list \<Rightarrow> int \<Rightarrow> int \<Rightarrow> int \<Rightarrow> int \<Rightarrow> int" where
  "match_loop buf start p maxMatch matchLen =
     (if matchLen < maxMatch \<and> buf ! nat (start + matchLen) = buf ! nat (p + matchLen)
      then match_loop buf start p maxMatch (matchLen + 1) else matchLen)"
  by pat_completeness auto
termination
  by (relation "measure (\<lambda>(buf, start, p, maxMatch, matchLen). nat (maxMatch - matchLen))") auto

declare match_loop.simps [simp del]

text \<open>The loop \<open>for off := 1; off <= maxSearch; off++\<close>, with its \<open>break\<close>.\<close>

function search_loop ::
  "byte list \<Rightarrow> int \<Rightarrow> int \<Rightarrow> int \<Rightarrow> int \<Rightarrow> int \<times> int \<Rightarrow> int \<times> int" where
  "search_loop buf p maxSearch maxMatch off best =
     (if off \<le> maxSearch then
        (let matchLen = match_loop buf (p - off) p maxMatch 0;
             best' = (if matchLen > fst best then (matchLen, off) else best)
         in if fst best' = maxMatch then best'
            else search_loop buf p maxSearch maxMatch (off + 1) best')
      else best)"
  by pat_completeness auto
termination
  by (relation "measure (\<lambda>(buf, p, maxSearch, maxMatch, off, best). nat (maxSearch + 1 - off))")
    auto

declare search_loop.simps [simp del]

text \<open>\<open>searchData\<close> returns the offset and the match length minus two, or \<open>(0, 0)\<close>.\<close>

definition searchData :: "byte list \<Rightarrow> int \<Rightarrow> int \<times> int" where
  "searchData buf p =
     (if p < acceptLevel then (0, 0)
      else
        (let maxSearch = (if p > lookback then lookback else p);
             maxMatch = (if p + level > int (length buf) then int (length buf) - p else level)
         in if maxMatch < acceptLevel then (0, 0)
            else
              (let best = search_loop buf p maxSearch maxMatch 1 (0, 0);
                   bestLen = fst best; bestOff = snd best
               in if bestLen < acceptLevel then (0, 0) else (bestOff, bestLen - 2))))"

subsection \<open>\<open>Compress\<close>\<close>

record cmp_state =
  cout :: "byte list"
  outPos :: int
  inPos :: int

text \<open>\<open>ref := uint16((offset << 4) | (mlen & 0x0F))\<close>: the conversion keeps 16 bits.\<close>

definition ref_token :: "int \<Rightarrow> int \<Rightarrow> 16 word" where
  "ref_token offset mlen = word_of_int (push_bit 4 offset OR (mlen AND 0x0F))"

definition put_literal :: "byte list \<Rightarrow> cmp_state \<Rightarrow> lz_panic + cmp_state" where
  "put_literal inp s =
     (let out1 = (if outPos s \<ge> int (length (cout s)) then cout s @ [0] else cout s) in
      if outPos s < 0 \<or> outPos s \<ge> int (length out1) \<or>
         inPos s < 0 \<or> inPos s \<ge> int (length inp)
      then Inl IndexOutOfRange
      else Inr (s\<lparr>cout := out1[nat (outPos s) := inp ! nat (inPos s)],
                  outPos := outPos s + 1, inPos := inPos s + 1\<rparr>))"

definition put_ref :: "int \<Rightarrow> int \<Rightarrow> cmp_state \<Rightarrow> lz_panic + cmp_state" where
  "put_ref offset mlen s =
     (let ref = ref_token offset mlen;
          out1 = (if outPos s + 1 \<ge> int (length (cout s)) then cout s @ [0, 0] else cout s)
      in if outPos s < 0 \<or> outPos s + 2 > int (length out1) then Inl IndexOutOfRange
         else Inr (s\<lparr>cout := out1[nat (outPos s) := ucast ref,
                                    nat (outPos s) + 1 := ucast (drop_bit 8 ref)],
                     outPos := outPos s + 2, inPos := inPos s + (mlen + 2)\<rparr>))"

text \<open>
  The loop \<open>for i := 0; i < 8; i++\<close> of one group, with its two \<open>break\<close>s; it returns the
  state and the control byte.
\<close>

function group_loop ::
  "byte list \<Rightarrow> nat \<Rightarrow> cmp_state \<Rightarrow> byte \<Rightarrow> lz_panic + (cmp_state \<times> byte)" where
  "group_loop inp i s ctrlByte =
     (if i < 8 then
        (if inPos s \<ge> int (length inp) then Inr (s, ctrlByte)
         else
           (case (if fst (searchData inp (inPos s)) = 0
                  then map_sum id (\<lambda>s'. (s', ctrlByte OR push_bit i 1)) (put_literal inp s)
                  else map_sum id (\<lambda>s'. (s', ctrlByte))
                         (put_ref (fst (searchData inp (inPos s)))
                                  (snd (searchData inp (inPos s))) s)) of
              Inl e \<Rightarrow> Inl e
            | Inr (s', ctrl') \<Rightarrow>
                if inPos s' \<ge> int (length inp) then Inr (s', ctrl')
                else group_loop inp (i + 1) s' ctrl'))
      else Inr (s, ctrlByte))"
  by pat_completeness auto
termination
  by (relation "measure (\<lambda>(inp, i, s, ctrlByte). 8 - i)") auto

declare group_loop.simps [simp del]

text \<open>
  One round of the outer loop: reserve the control byte, run the group, store the
  control byte. The increment of \<open>outPos\<close> is the only one no bound precedes.
\<close>

definition compress_round :: "byte list \<Rightarrow> cmp_state \<Rightarrow> lz_panic + cmp_state" where
  "compress_round inp s =
     (let ctrlPos = outPos s in
      case group_loop inp 0 (s\<lparr>outPos := add64 (outPos s) 1\<rparr>) 0 of
        Inl e \<Rightarrow> Inl e
      | Inr (s', ctrlByte) \<Rightarrow>
          if ctrlPos < int (length (cout s')) then
            (if ctrlPos < 0 then Inl IndexOutOfRange
             else Inr (s'\<lparr>cout := (cout s')[nat ctrlPos := ctrlByte]\<rparr>))
          else Inr s')"

text \<open>
  The outer loop \<open>for inPos <= srcLen\<close>. Nothing bounds the number of its rounds, so it is
  a partial function: \<open>None\<close> means that the loop does not end.
\<close>

partial_function (option) compress_loop :: "byte list \<Rightarrow> cmp_state \<Rightarrow> (lz_panic + cmp_state) option" where
  "compress_loop inp s =
     (if inPos s \<le> int (length inp) then
        (case compress_round inp s of
           Inl e \<Rightarrow> Some (Inl e)
         | Inr s' \<Rightarrow> compress_loop inp s')
      else Some (Inr s))"

definition put_u32 :: "nat \<Rightarrow> 32 word \<Rightarrow> byte list \<Rightarrow> byte list" where
  "put_u32 i v out =
     out[i := ucast v, i + 1 := ucast (drop_bit 8 v), i + 2 := ucast (drop_bit 16 v),
         i + 3 := ucast (drop_bit 24 v)]"

text \<open>
  \<open>Compress\<close>: \<open>Some (Inr frame)\<close> when it returns a frame, \<open>Some (Inl e)\<close> when it panics,
  \<open>None\<close> when it runs forever.
\<close>

definition Compress :: "byte list \<Rightarrow> (lz_panic + byte list) option" where
  "Compress inp =
     (let srcLen = int (length inp) in
      case compress_loop inp \<lparr>cout = replicate (nat (8 + srcLen * 2)) 0, outPos = 8, inPos = 0\<rparr> of
        None \<Rightarrow> None
      | Some (Inl e) \<Rightarrow> Some (Inl e)
      | Some (Inr s) \<Rightarrow>
          (let compLen = outPos s;
               out = put_u32 4 (word_of_int srcLen) (put_u32 0 (word_of_int compLen) (cout s))
           in if compLen < 0 \<or> compLen > int (length out) then Some (Inl IndexOutOfRange)
              else Some (Inr (take (nat compLen) out))))"

text \<open>\<open>Decompress(Compress(x))\<close>.\<close>

definition roundtrip :: "byte list \<Rightarrow> (lz_panic + byte list) option" where
  "roundtrip x =
     (case Compress x of
        None \<Rightarrow> None
      | Some (Inl e) \<Rightarrow> Some (Inl e)
      | Some (Inr frame) \<Rightarrow> Some (Decompress frame))"

section \<open>Siglus string obfuscation\<close>

type_synonym u16 = "16 word"

text \<open>
  Both \<open>DumpSS\<close> and \<open>encryptString\<close> compute \<open>key := uint16(index * 0x7087)\<close> on a
  Go \<open>int\<close>: the conversion keeps the low 16 bits of the product, and the low 16 bits of
  the wrapped 64-bit product are those of the exact product.
\<close>

definition ss_key :: "int \<Rightarrow> u16" where
  "ss_key index = word_of_int (index * 0x7087)"

text \<open>The loop \<open>for j := range u16 { u16[j] ^= key }\<close> of both functions.\<close>

definition xor_units :: "u16 \<Rightarrow> u16 list \<Rightarrow> u16 list" where
  "xor_units key u16 = map (\<lambda>u. u XOR key) u16"

text \<open>
  \<open>encryptString(s, index)\<close>: the string is first encoded by the standard library
  (\<open>utf16.Encode([]rune(s))\<close>, a parameter here), then masked with the key.
\<close>

definition encryptString :: "(string \<Rightarrow> u16 list) \<Rightarrow> string \<Rightarrow> int \<Rightarrow> u16 list" where
  "encryptString utf16_encode s index = xor_units (ss_key index) (utf16_encode s)"

text \<open>
  The decryption step of \<open>DumpSS\<close> for entry \<open>i\<close>, applied to the code units read from
  the string table.
\<close>

definition dump_decrypt :: "int \<Rightarrow> u16 list \<Rightarrow> u16 list" where
  "dump_decrypt i u16 = xor_units (ss_key i) u16"

lemma xor_units_twice: "xor_units k (xor_units k us) = us"
  by (induction us) (simp_all add: xor_units_def xor.assoc)

text \<open>
  Claim C10. The per-index obfuscation is self-inverse: masking a sequence of UTF-16
  code units twice with the key of index \<open>i\<close> restores it, and the decryption of
  \<open>DumpSS\<close> undoes \<open>encryptString\<close> at the same index.
\<close>

theorem ss_xor_self_inverse:
  "dump_decrypt i (dump_decrypt i us) = us \<and>
   dump_decrypt i (encryptString enc s i) = enc s"
  by (simp add: dump_decrypt_def encryptString_def xor_units_twice)

section \<open>Properties of buffers\<close>

text \<open>
  A read that ends within the length of the slice returns the bytes of the slice, whatever
  lies in the spare capacity; a read that ends past the length but within the capacity
  returns bytes of the backing array.
\<close>

lemma Read_within:
  assumes "0 \<le> idx" and "0 \<le> len" and "idx + len \<le> Len b"
  shows "Read b spare idx len = Some (take (nat len) (drop (nat idx) b))"
proof -
  have "nat len \<le> length b - nat idx"
    using assms by (simp add: Len_def)
  then show ?thesis
    using assms by (simp add: Read_def Len_def)
qed

lemma ReadSz_within:
  assumes "0 \<le> idx" and "0 \<le> len" and "idx + len \<le> Len b"
  shows "ReadSz b spare idx len = Some (takeWhile (\<lambda>c. c \<noteq> 0) (take (nat len) (drop (nat idx) b)))"
  using assms by (simp add: ReadSz_def Read_within)

lemma ReadSz_spare_capacity:
  "ReadSz [0x41, 0x42] [0x43, 0, 0x44] 0 4 = Some [0x41, 0x42, 0x43] \<and>
   ReadSz [0x41, 0x42] [] 0 4 = None"
  by (simp add: ReadSz_def Read_def Len_def)


section \<open>Properties of the header parser\<close>

text \<open>
  The header functions read within the length of the buffer only, so their results do not
  depend on its spare capacity.
\<close>

lemma IsBytecode_spare: "IsBytecode arr spare idx = IsBytecode arr [] idx"
proof (cases "0 \<le> idx \<and> idx + 8 \<le> Len arr")
  case True
  then have "Read arr sp idx 4 = Some (take (nat 4) (drop (nat idx) arr))" for sp
    by (intro Read_within) simp_all
  then have "Read arr spare idx 4 = Read arr [] idx 4"
    by simp
  then show ?thesis
    by (simp only: IsBytecode_def)
next
  case False
  then consider "idx + 8 > Len arr" | "idx < 0"
    by fastforce
  then show ?thesis
  proof cases
    case 1
    then show ?thesis
      by (simp add: IsBytecode_def)
  next
    case 2
    then have "Read arr sp idx 4 = None" for sp
      by (simp add: Read_def)
    then show ?thesis
      by (simp only: IsBytecode_def)
  qed
qed

lemma ReadFileHeader_spare: "ReadFileHeader arr spare archived = ReadFileHeader arr [] archived"
proof (cases "IsBytecode arr [] 0 = Some True")
  case True
  then have "8 \<le> Len arr"
    by (simp add: IsBytecode_def split: if_splits)
  then have "Read arr sp 0 4 = Some (take (nat 4) (drop (nat 0) arr))" for sp
    by (intro Read_within) simp_all
  then have "Read arr spare 0 4 = Read arr [] 0 4"
    by simp
  then show ?thesis
    by (simp only: ReadFileHeader_def IsBytecode_spare [of arr spare])
next
  case False
  then show ?thesis
    by (cases "IsBytecode arr [] 0") (simp_all add: ReadFileHeader_def IsBytecode_spare [of arr spare])
qed

lemma magicB801_other:
  "magicB801 \<noteq> magicRDRL" "magicB801 \<noteq> magicRD2K" "magicB801 \<noteq> magicRDRM"
  "magicB801 \<noteq> magicKPRL" "magicB801 \<noteq> magicKP2K" "magicB801 \<noteq> magicKPRM"
  "magicB801 \<noteq> magicD001" "magicB801 \<noteq> magicCC01"
  "take 2 magicB801 \<noteq> bytes_of ''RD''"
  by (simp_all add: magicB801_def magicRDRL_def magicRD2K_def magicRDRM_def magicKPRL_def
        magicKP2K_def magicKPRM_def magicD001_def magicCC01_def bytes_of_def)

text \<open>
  Claim C5 fails on the code. Every buffer, of any capacity, that starts with the magic
  \<open>b8 01 00 00\<close> and carries one of the three compiler versions is accepted by \<open>IsBytecode\<close>, and
  \<open>ReadFileHeader\<close> then returns the error of its \<open>default\<close> branch: the magic is in
  neither of its two \<open>case\<close> lists.
\<close>

theorem ReadFileHeader_rejects_B801:
  assumes "take 4 arr = magicB801" and "8 \<le> length arr"
    and "GetInt arr 4 = Some ver" and "ver = 10002 \<or> ver = 110002 \<or> ver = 1110002"
  shows "IsBytecode arr spare 0 = Some True \<and>
         ReadFileHeader arr spare archived = Inl (UnsupportedHeaderFormat magicB801)"
proof -
  have rd: "Read arr spare 0 4 = Some magicB801"
    using assms(1,2) by (simp add: Read_within Len_def)
  have isb: "IsBytecode arr spare 0 = Some True"
    using assms(2,3,4) rd by (simp add: IsBytecode_def Len_def magicB801_other)
  show ?thesis
    using isb rd assms(3) by (simp add: ReadFileHeader_def magicB801_other)
qed

theorem ReadFileHeader_rejects_B801_witness:
  "IsBytecode ([0xb8, 0x01, 0, 0, 0x12, 0x27, 0, 0] @ replicate 40 0) [] 0 = Some True \<and>
   ReadFileHeader ([0xb8, 0x01, 0, 0, 0x12, 0x27, 0, 0] @ replicate 40 0) [] True =
     Inl (UnsupportedHeaderFormat magicB801)"
proof -
  have "GetInt ([0xb8, 0x01, 0, 0, 0x12, 0x27, 0, 0] @ replicate 40 0) 4 = Some 10002"
    by code_simp
  then show ?thesis
    by (intro ReadFileHeader_rejects_B801 [where ver = 10002]) (simp_all add: magicB801_def)
qed

subsection \<open>Properties of \<open>ParseRanges\<close>\<close>

lemma range_loop_upto: "range_loop i e acc = acc @ [i..min e (MaxSeens - 1)]"
proof (induction i e acc rule: range_loop.induct)
  case (1 i e acc)
  show ?case
  proof (cases "i \<le> e \<and> i < MaxSeens")
    case True
    then have "[i..min e (MaxSeens - 1)] = i # [i + 1..min e (MaxSeens - 1)]"
      by (simp add: upto_rec1)
    moreover have "range_loop i e acc = range_loop (i + 1) e (acc @ [i])"
      using True by (subst range_loop.simps) simp
    ultimately show ?thesis
      using "1" [OF True] by simp
  next
    case False
    then have "[i..min e (MaxSeens - 1)] = []"
      by auto
    moreover have "range_loop i e acc = acc"
      using False by (subst range_loop.simps) auto
    ultimately show ?thesis
      by simp
  qed
qed

text \<open>
  Claim C7, as amended. Whenever \<open>ParseRanges\<close> returns a list, the list is sorted in
  ascending order. (It is not freed of duplicates: an index selected twice is returned
  twice.)
\<close>

theorem ParseRanges_sorted: "ParseRanges args = Inr r \<Longrightarrow> sorted r"
  by (auto simp: ParseRanges_def split: if_splits sum.splits)


theorem ParseRanges_sorted_witness:
  "ParseRanges [''0-10'', ''!3-5''] = Inr [0, 1, 2, 6, 7, 8, 9, 10] \<and>
   sorted [0, 1, 2, 6, 7, 8, 9, 10 :: int]"
proof -
  have h: "ParseRanges [''0-10'', ''!3-5''] = Inr [0, 1, 2, 6, 7, 8, 9, 10]"
    by code_simp
  show ?thesis
    by (rule conjI [OF h ParseRanges_sorted [OF h]])
qed

text \<open>
  Claim C7 as stated fails: the index 5, selected by both arguments, is returned twice.
\<close>

theorem ParseRanges_keeps_duplicates:
  "ParseRanges [''5'', ''5-6''] = Inr [5, 5, 6] \<and> \<not> distinct [5, 5, 6 :: int]"
proof -
  have "ParseRanges [''5'', ''5-6''] = Inr [5, 5, 6]"
    by code_simp
  then show ?thesis
    by simp
qed


section \<open>Properties of the metadata reader\<close>

text \<open>
  \<open>Read\<close> does not depend on the spare capacity either: when the name field ends past the
  length of the buffer, the \<open>GetInt\<close> that follows it panics.
\<close>

lemma MetaRead_spare: "MetaRead arr spare idx = MetaRead arr [] idx"
proof (cases "GetInt arr idx")
  case None
  then show ?thesis
    by (simp add: MetaRead_def)
next
  case m: (Some m)
  then have i: "0 \<le> idx"
    by (simp add: GetInt_def GetUint_def split: if_splits)
  show ?thesis
  proof (cases "GetInt arr (idx + 4)")
    case None
    with m show ?thesis
      by (simp add: MetaRead_def)
  next
    case s: (Some s)
    show ?thesis
    proof (cases "0 \<le> s + 1 \<and> idx + 8 + (s + 1) \<le> Len arr")
      case True
      then have "ReadSz arr spare (idx + 8) (s + 1) = ReadSz arr [] (idx + 8) (s + 1)"
        using i by (simp add: ReadSz_def Read_within)
      with m s show ?thesis
        by (simp add: MetaRead_def Let_def)
    next
      case False
      have "MetaRead arr sp idx =
          (if idx + 8 > Len arr \<or> m < s + 1 + 17 then Some Empty else None)" for sp
      proof (cases "ReadSz arr sp (idx + 8) (s + 1)")
        case None
        with m s show ?thesis
          by (simp add: MetaRead_def Let_def)
      next
        case (Some name)
        with False i have "GetInt arr (idx + 8 + (s + 1)) = None"
          by (auto simp: ReadSz_def Read_def GetInt_def GetUint_def split: if_splits)
        with m s Some show ?thesis
          by (simp add: MetaRead_def Let_def)
      qed
      from this [of spare] this [of "[]"] show ?thesis
        by simp
    qed
  qed
qed

text \<open>
  Claim C6, as amended. \<open>total_len\<close> and \<open>id_len\<close> are the two stored 32-bit fields read
  as signed integers, as \<open>GetInt\<close> reads them. With the 8-byte prefix in range, \<open>Read\<close>
  returns the empty metadata when \<open>total_len < id_len + 18\<close>, and when
  \<open>total_len \<ge> id_len + 18\<close>, \<open>id_len \<ge> -1\<close> and the \<open>id_len + 18\<close> bytes of the block lie
  within the buffer it returns the parsed compiler name, version, target version and text
  transform.
\<close>

theorem MetaRead_valid_iff:
  assumes "0 \<le> idx" and "idx + 8 \<le> Len arr"
    and "GetInt arr idx = Some total_len" and "GetInt arr (idx + 4) = Some id_len"
  shows "(total_len < id_len + 18 \<longrightarrow> MetaRead arr spare idx = Some Empty) \<and>
         (id_len + 18 \<le> total_len \<and> - 1 \<le> id_len \<and> idx + id_len + 18 \<le> Len arr \<longrightarrow>
            MetaRead arr spare idx =
              Some \<lparr>CompilerName =
                      takeWhile (\<lambda>c. c \<noteq> 0) (take (nat (id_len + 1)) (drop (nat (idx + 8)) arr)),
                    MetaCompilerVersion =
                      sint (le_u32 (arr ! nat (idx + id_len + 9)) (arr ! nat (idx + id_len + 10))
                                   (arr ! nat (idx + id_len + 11)) (arr ! nat (idx + id_len + 12))),
                    TargetVersion =
                      [arr ! nat (idx + id_len + 13), arr ! nat (idx + id_len + 14),
                       arr ! nat (idx + id_len + 15), arr ! nat (idx + id_len + 16)],
                    MetaTextTransform = transform_of (arr ! nat (idx + id_len + 17))\<rparr>)"
proof (intro conjI impI)
  assume "total_len < id_len + 18"
  with assms show "MetaRead arr spare idx = Some Empty"
    by (simp add: MetaRead_def)
next
  assume v: "id_len + 18 \<le> total_len \<and> - 1 \<le> id_len \<and> idx + id_len + 18 \<le> Len arr"
  define i2 where "i2 = idx + id_len + 9"
  have e: "idx + 8 + (id_len + 1) = i2"
    "idx + id_len + 9 = i2" "idx + id_len + 10 = i2 + 1" "idx + id_len + 11 = i2 + 2"
    "idx + id_len + 12 = i2 + 3" "idx + id_len + 13 = i2 + 4" "idx + id_len + 14 = i2 + 5"
    "idx + id_len + 15 = i2 + 6" "idx + id_len + 16 = i2 + 7" "idx + id_len + 17 = i2 + 8"
    by (simp_all add: i2_def)
  have r: "0 \<le> i2" "i2 + 9 \<le> Len arr"
    using assms(1) v by (simp_all add: i2_def)
  have name: "ReadSz arr spare (idx + 8) (id_len + 1) =
      Some (takeWhile (\<lambda>c. c \<noteq> 0) (take (nat (id_len + 1)) (drop (nat (idx + 8)) arr)))"
    using assms(1) v by (intro ReadSz_within) simp_all
  have ver: "GetInt arr i2 =
      Some (sint (le_u32 (arr ! nat i2) (arr ! nat (i2 + 1)) (arr ! nat (i2 + 2)) (arr ! nat (i2 + 3))))"
    using r by (simp add: GetInt_def GetUint_def)
  have u8: "GetU8 arr (i2 + 4) = Some (arr ! nat (i2 + 4))"
    "GetU8 arr (i2 + 5) = Some (arr ! nat (i2 + 5))"
    "GetU8 arr (i2 + 6) = Some (arr ! nat (i2 + 6))"
    "GetU8 arr (i2 + 7) = Some (arr ! nat (i2 + 7))"
    "GetU8 arr (i2 + 8) = Some (arr ! nat (i2 + 8))"
    using r by (simp_all add: GetU8_def)
  have lt: "\<not> total_len < id_len + 1 + 17" "\<not> idx + 8 > Len arr"
    using v assms(2) by simp_all
  show "MetaRead arr spare idx = Some \<lparr>CompilerName =
                      takeWhile (\<lambda>c. c \<noteq> 0) (take (nat (id_len + 1)) (drop (nat (idx + 8)) arr)),
                    MetaCompilerVersion =
                      sint (le_u32 (arr ! nat (idx + id_len + 9)) (arr ! nat (idx + id_len + 10))
                                   (arr ! nat (idx + id_len + 11)) (arr ! nat (idx + id_len + 12))),
                    TargetVersion =
                      [arr ! nat (idx + id_len + 13), arr ! nat (idx + id_len + 14),
                       arr ! nat (idx + id_len + 15), arr ! nat (idx + id_len + 16)],
                    MetaTextTransform = transform_of (arr ! nat (idx + id_len + 17))\<rparr>"
    by (simp only: MetaRead_def Let_def assms(3,4) option.case prod.case lt if_False e name ver u8)
qed

theorem MetaRead_valid_iff_witness:
  "MetaRead [19, 0, 0, 0, 1, 0, 0, 0, 0x41, 0, 100, 0, 0, 0, 1, 2, 3, 4, 2] [] 0 =
     Some \<lparr>CompilerName = [0x41], MetaCompilerVersion = 100, TargetVersion = [1, 2, 3, 4],
           MetaTextTransform = TransformWestern\<rparr> \<and>
   MetaRead [9, 0, 0, 0, 1, 0, 0, 0, 0x41, 0, 100, 0, 0, 0, 1, 2, 3, 4, 2] [] 0 = Some Empty"
proof -
  let ?a = "[19, 0, 0, 0, 1, 0, 0, 0, 0x41, 0, 100, 0, 0, 0, 1, 2, 3, 4, 2] :: Buffer"
  let ?b = "[9, 0, 0, 0, 1, 0, 0, 0, 0x41, 0, 100, 0, 0, 0, 1, 2, 3, 4, 2] :: Buffer"
  have a: "GetInt ?a 0 = Some 19" "GetInt ?a (0 + 4) = Some 1" "(0::int) + 8 \<le> Len ?a"
    by code_simp+
  have b: "GetInt ?b 0 = Some 9" "GetInt ?b (0 + 4) = Some 1" "(0::int) + 8 \<le> Len ?b"
    by code_simp+
  have tr: "transform_of 2 = TransformWestern" "sint (le_u32 100 0 0 0) = 100"
    by code_simp+
  from MetaRead_valid_iff [OF order_refl a(3) a(1) a(2), of "[]"]
    MetaRead_valid_iff [OF order_refl b(3) b(1) b(2), of "[]"]
  show ?thesis
    by (simp add: Len_def tr)
qed

text \<open>
  Claim C6 as stated fails: a block whose \<open>total_len\<close> is \<open>id_len + 17\<close> is treated as
  absent, although all its fields are present in the buffer.
\<close>

theorem MetaRead_len17_absent:
  "GetInt [18, 0, 0, 0, 1, 0, 0, 0, 0x41, 0, 100, 0, 0, 0, 1, 2, 3, 4, 2] 0 = Some (1 + 17) \<and>
   GetInt [18, 0, 0, 0, 1, 0, 0, 0, 0x41, 0, 100, 0, 0, 0, 1, 2, 3, 4, 2] 4 = Some 1 \<and>
   MetaRead [18, 0, 0, 0, 1, 0, 0, 0, 0x41, 0, 100, 0, 0, 0, 1, 2, 3, 4, 2] [] 0 = Some Empty"
  by code_simp


section \<open>Properties of the archive validator\<close>

lemma seen_loop_empty_slots:
  assumes "\<And>j. i \<le> j \<Longrightarrow> j < MaxSeens \<Longrightarrow> \<exists>off. getSubfileInfo arr j = Some \<lparr>Offset = off, Length = 0\<rparr>"
  shows "seen_loop arr spare i count = Some count"
  using assms
proof (induction arr spare i count rule: seen_loop.induct)
  case (1 arr spare i count)
  show ?case
  proof (cases "i < MaxSeens")
    case True
    then obtain off where g: "getSubfileInfo arr i = Some \<lparr>Offset = off, Length = 0\<rparr>"
      using "1.prems" [of i] by auto
    have "seen_loop arr spare (i + 1) count = Some count"
      using True g "1.prems" by (intro "1.IH"(1) [OF True g]) auto
    then show ?thesis
      using True g by (subst seen_loop.simps) simp
  next
    case False
    then show ?thesis by (subst seen_loop.simps) simp
  qed
qed

lemma loa_len: "length low_offset_archive = 80008" by (simp add: low_offset_archive_def bytes_of_def)

lemma loa_zero: "(12 \<le> k \<and> k < 79992) \<or> (79996 \<le> k \<and> k < 80008) \<Longrightarrow> low_offset_archive ! k = 0"
  by (auto simp: low_offset_archive_def nth_append bytes_of_def)

lemma loa_slot0: "getSubfileInfo low_offset_archive 0 = Some \<lparr>Offset = 79992, Length = 16\<rparr>"
  by (simp add: getSubfileInfo_def Len_def loa_len GetInt_def GetUint_def low_offset_archive_def le_u32_def)

lemma loa_magic: "IsBytecode low_offset_archive spare 79992 = Some True"
proof -
  have "drop 79992 low_offset_archive = bytes_of ''RDRL'' @ replicate 12 0"
    by (simp add: low_offset_archive_def)
  moreover have "Read low_offset_archive spare 79992 4 =
      Some (take (nat 4) (drop (nat 79992) low_offset_archive))"
    by (rule Read_within) (simp_all add: Len_def loa_len)
  ultimately show ?thesis
    by (simp add: IsBytecode_def Len_def loa_len magicRDRL_def bytes_of_def)
qed

lemma GetInt_zero:
  assumes "0 \<le> idx" and "idx + 4 \<le> Len b" and "\<And>k. k < 4 \<Longrightarrow> b ! (nat idx + k) = 0"
  shows "GetInt b idx = Some 0"
proof -
  have n: "nat (idx + 1) = nat idx + 1" "nat (idx + 2) = nat idx + 2" "nat (idx + 3) = nat idx + 3"
    using assms(1) by simp_all
  have "b ! nat idx = 0" "b ! (nat idx + 1) = 0" "b ! (nat idx + 2) = 0" "b ! (nat idx + 3) = 0"
    using assms(3) [of 0] assms(3) [of 1] assms(3) [of 2] assms(3) [of 3] by simp_all
  then show ?thesis
    using assms(1,2) by (simp only: GetInt_def GetUint_def n le_u32_def) simp
qed

lemma loa_others:
  assumes "1 \<le> j" "j < MaxSeens"
  shows "\<exists>off. getSubfileInfo low_offset_archive j = Some \<lparr>Offset = off, Length = 0\<rparr>"
proof -
  have r: "0 \<le> j * 8" "0 \<le> j * 8 + 4" "j * 8 + 4 + 4 \<le> Len low_offset_archive" "j * 8 + 4 \<le> Len low_offset_archive" "\<not> Len low_offset_archive \<le> 23"
    using assms by (simp_all add: Len_def loa_len MaxSeens_def)
  have c: "j \<le> 9998 \<or> j = 9999"
    using assms by (simp add: MaxSeens_def) arith
  have "low_offset_archive ! (nat (j * 8 + 4) + k) = 0" if "k < 4" for k
    using c assms(1) that by (intro loa_zero) auto
  then have "GetInt low_offset_archive (j * 8 + 4) = Some 0"
    using r by (intro GetInt_zero) simp_all
  moreover have "\<exists>off. GetInt low_offset_archive (j * 8) = Some off"
    using r by (simp add: GetInt_def GetUint_def)
  ultimately show ?thesis
    using r by (auto simp: getSubfileInfo_def)
qed

text \<open>
  Claim C4 fails on the code. Slot 0 of \<open>low_offset_archive\<close> is not empty and its offset,
  79992, is below 80000, yet \<open>SeenCount\<close> counts it as valid and returns 1, whatever the
  capacity of the buffer: the code compares \<open>offset + length\<close>, not \<open>offset\<close>, with the size
  of the index.
\<close>

theorem SeenCount_counts_slot_inside_index:
  "getSubfileInfo low_offset_archive 0 = Some \<lparr>Offset = 79992, Length = 16\<rparr> \<and>
   SeenCount low_offset_archive spare = Some 1"
proof -
  have "SeenCount low_offset_archive spare = Some 1"
  proof -
  have "Read low_offset_archive spare 0 23 =
      Some (take (nat 23) (drop (nat 0) low_offset_archive))"
    by (rule Read_within) (simp_all add: Len_def loa_len)
  then have "Read low_offset_archive spare 0 23 \<noteq> Some emptyArcMagic"
    by (simp add: low_offset_archive_def emptyArcMagic_def)
  then have "SeenCount low_offset_archive spare = seen_loop low_offset_archive spare 0 0"
    by (simp add: SeenCount_def Len_def loa_len IndexSize_def MaxSeens_def)
  also have "\<dots> = seen_loop low_offset_archive spare 1 1"
    by (subst seen_loop.simps) (simp add: loa_slot0 loa_magic MaxSeens_def IndexSize_def Len_def loa_len)
  also have "\<dots> = Some 1"
    by (rule seen_loop_empty_slots) (simp add: loa_others)
    finally show ?thesis .
  qed
  then show ?thesis
    by (simp add: loa_slot0)
qed


section \<open>Properties of the reader\<close>

lemma int64_id: "in_int64 x \<Longrightarrow> int64 x = x"
  by (simp add: int64_def in_int64_def)

lemma origin_Next: "origin (snd (Next r)) = origin r"
  by (simp add: Next_def split: option.splits)

lemma pos_Next_ge: "pos r \<le> pos (snd (Next r))"
  by (simp add: Next_def split: option.splits)

lemma Rollback_bounds: "origin (Rollback n r) = origin r \<and> origin r \<le> pos (Rollback n r)"
  by (simp add: Rollback_def Let_def)

lemma Skip_forward:
  "0 \<le> n \<Longrightarrow> in_int64 (pos r + n) \<Longrightarrow> origin (Skip n r) = origin r \<and> pos r \<le> pos (Skip n r)"
  by (simp add: Skip_def add64_def int64_id)

lemma run_ops_invariant:
  "forward_skips ops r \<Longrightarrow> origin r \<le> pos r \<Longrightarrow>
   origin (run_ops ops r) = origin r \<and> origin r \<le> pos (run_ops ops r)"
proof (induction ops r rule: forward_skips.induct)
  case (1 r)
  then show ?case by (simp add: run_ops_def)
next
  case (2 n ops r)
  then have "origin (Skip n r) = origin r" and "origin (Skip n r) \<le> pos (Skip n r)"
    using Skip_forward [of n r] by auto
  with 2 show ?case by (simp add: run_ops_def)
next
  case (3 ops r)
  have "origin (snd (Next r)) \<le> pos (snd (Next r))"
    using "3.prems"(2) pos_Next_ge [of r] by (simp add: origin_Next)
  with 3 show ?case by (simp add: run_ops_def origin_Next)
next
  case (4 n ops r)
  then show ?case
    using Rollback_bounds [of n r] by (simp add: run_ops_def)
qed

text \<open>
  Claim C9, as amended. Starting from a reader created with \<open>NewReader\<close>, every sequence
  of \<open>Next\<close>, \<open>Rollback(n)\<close> (any \<open>n\<close>) and \<open>Skip(n)\<close> with \<open>n \<ge> 0\<close> that does not overflow
  the position keeps \<open>pos \<ge> origin\<close>, and \<open>origin\<close> is never changed.
\<close>

theorem Reader_pos_ge_origin:
  assumes "forward_skips ops (NewReader d org lim m)"
  shows "origin (run_ops ops (NewReader d org lim m)) = org \<and>
         org \<le> pos (run_ops ops (NewReader d org lim m))"
  using run_ops_invariant [OF assms] by (simp add: NewReader_def)

theorem Reader_pos_ge_origin_witness:
  "forward_skips [OpNext, OpSkip 2, OpRollback 10, OpNext] (NewReader [1, 2, 3] 0 3 ModeRealLive) \<and>
   origin (run_ops [OpNext, OpSkip 2, OpRollback 10, OpNext] (NewReader [1, 2, 3] 0 3 ModeRealLive)) = 0 \<and>
   0 \<le> pos (run_ops [OpNext, OpSkip 2, OpRollback 10, OpNext] (NewReader [1, 2, 3] 0 3 ModeRealLive))"
proof -
  have h: "forward_skips [OpNext, OpSkip 2, OpRollback 10, OpNext] (NewReader [1, 2, 3] 0 3 ModeRealLive)"
    by (simp add: NewReader_def Next_def GetU8_def Len_def Skip_def Rollback_def add64_def
        sub64_def int64_def in_int64_def)
  show ?thesis
    using h Reader_pos_ge_origin [OF h] by simp
qed

text \<open>
  Claim C9 as stated fails: \<open>Skip\<close> takes a signed \<open>int\<close> and adds it without a check, so
  \<open>Skip(-1)\<close> on a fresh reader moves the position before the origin.
\<close>

theorem Skip_negative_leaves_origin:
  "pos (run_ops [OpSkip (- 1)] (NewReader [] 0 0 ModeRealLive)) <
   origin (run_ops [OpSkip (- 1)] (NewReader [] 0 0 ModeRealLive))"
  by (simp add: run_ops_def Skip_def NewReader_def add64_def int64_def)

section \<open>Properties of the expression parser\<close>

lemmas fmt_defs = fmt_d_def fmt_nat_def digit_char_def digits10.simps

lemmas reader_defs = NewReader_def Next_def Peek_def ReadInt32_def GetU8_def GetUint_def Len_def
  add64_def sub64_def int64_def le_u32_def

lemma fuel5: "n + 5 = Suc (Suc (Suc (Suc (Suc n))))"
  by simp

text \<open>
  Claim C8. On the bytes \<open>FF 2A 00 00 00\<close> the parser returns \<open>42\<close>, and on
  \<open>FF 02 00 00 00 00 FF 03 00 00 00\<close> it returns \<open>2 + 3\<close>; in both cases it has read all the
  input. Five steps of recursion are enough, and more give the same result.
\<close>

theorem GetExpression_examples:
  "GetExpression (n + 5) (NewReader [0xFF, 0x2A, 0, 0, 0] 0 5 m) =
     Some (Inr ''42'',
           \<lparr>data = [0xFF, 0x2A, 0, 0, 0], pos = 5, origin = 0, limit = 5, mode = m\<rparr>) \<and>
   GetExpression (n + 5) (NewReader [0xFF, 2, 0, 0, 0, 0x00, 0xFF, 3, 0, 0, 0] 0 11 m) =
     Some (Inr ''2 + 3'',
           \<lparr>data = [0xFF, 2, 0, 0, 0, 0x00, 0xFF, 3, 0, 0, 0], pos = 11, origin = 0, limit = 11,
             mode = m\<rparr>)"
  unfolding fuel5 by (simp add: GetExpression_def reader_defs cond_op_def arith_op_def fmt_defs)


section \<open>Properties of the disassembler\<close>

lemma byte_char_simps: "byte_char 0x41 = CHR ''A''" "byte_char 0x42 = CHR ''B''"
  by code_simp+

lemma textout_loop_example: "textout_loop opts (NewReader [0x41, 0x01, 0x02, 0x03, 0x42, 0x00] 0 6 m) [] =
   (Inr (''A'' @ [backslash, CHR ''n'', backslash, CHR ''w'', backslash, CHR ''p''] @ ''B''),
    \<lparr>data = [0x41, 0x01, 0x02, 0x03, 0x42, 0x00], pos = 5, origin = 0, limit = 6, mode = m\<rparr>)"
  by (simp add: textout_loop.simps AtEnd_def reader_defs is_text_end_def isShiftJISLead_def byte_char_simps)

text \<open>With no names to read, the full header does not depend on the spare capacity.\<close>

lemma ReadFullHeader_no_names:
  assumes "GetInt arr 0x18 = Some 0"
  shows "ReadFullHeader arr spare archived = ReadFullHeader arr [] archived"
proof (cases "ReadFileHeader arr [] archived")
  case (Inl e)
  then show ?thesis
    by (simp add: ReadFullHeader_def ReadFileHeader_spare [of arr spare])
next
  case (Inr hdr)
  show ?thesis
    using assms Inr
    by (simp add: ReadFullHeader_def ReadFileHeader_spare [of arr spare]
        cong: option.case_cong prod.case_cong if_cong)
qed

lemma goto_file_header: "ReadFullHeader goto_file spare True = Inr goto_header"
proof -
  have "GetInt goto_file 0x18 = Some 0"
    by code_simp
  then have "ReadFullHeader goto_file spare True = ReadFullHeader goto_file [] True"
    by (rule ReadFullHeader_no_names)
  also have "\<dots> = Inr goto_header"
    by code_simp
  finally show ?thesis .
qed

text \<open>No function of the disassembler writes the pointer set of the result.\<close>

lemma Pointers_append_cmd: "Pointers (append_cmd cmd result) = Pointers result"
  by (simp add: append_cmd_def)

lemma Pointers_readTextout: "Pointers (snd (readTextout r result offset opts)) = Pointers result"
  by (simp add: readTextout_def Let_def Pointers_append_cmd split: prod.splits sum.splits)

lemma Pointers_readFunction:
  "readFunction n r result offset op argc = Some (x, result') \<Longrightarrow> Pointers result' = Pointers result"
  by (auto simp: readFunction_def Let_def Pointers_append_cmd
      split: option.splits prod.splits sum.splits rd_error.splits)

lemma Pointers_readAssignment:
  "readAssignment n r result offset = Some (x, result') \<Longrightarrow> Pointers result' = Pointers result"
  by (auto simp: readAssignment_def Let_def Pointers_append_cmd
      split: option.splits prod.splits sum.splits rd_error.splits)

lemma Pointers_readCommand:
  "readCommand n r hdr result opts = Some (x, result') \<Longrightarrow> Pointers result' = Pointers result"
  unfolding readCommand_def Let_def
  using Pointers_readTextout [of "Rollback 1 (snd (Next r))" result "RelPos r" opts]
  by (auto simp: Pointers_append_cmd
      dest: Pointers_readFunction Pointers_readAssignment
      split: option.splits prod.splits sum.splits if_splits)

lemma Pointers_disasm_loop:
  "disasm_loop n r hdr result opts startAddr = Some (Inr result') \<Longrightarrow>
   Pointers result' = Pointers result"
proof (induction n arbitrary: r result)
  case 0
  then show ?case by simp
next
  case (Suc n)
  show ?case
  proof (cases "AtEnd r")
    case True
    with Suc.prems show ?thesis by simp
  next
    case False
    have "readCommand n r hdr result opts \<noteq> None"
    proof
      assume "readCommand n r hdr result opts = None"
      with Suc.prems False show False by (simp add: Let_def)
    qed
    then obtain y where "readCommand n r hdr result opts = Some y"
      by blast
    then obtain x result1 where
      rc: "readCommand n r hdr result opts = Some (x, result1)"
      by (cases y) simp
    then have p: "Pointers result1 = Pointers result"
      by (rule Pointers_readCommand)
    obtain res r1 where x: "x = (res, r1)"
      by (cases x)
    show ?thesis
    proof (cases res)
      case (Inl e)
      with Suc.prems False rc x p show ?thesis
        by (cases e) (auto simp: Let_def)
    next
      case (Inr u)
      with Suc.prems False rc x have "disasm_loop n r1 hdr result1 opts startAddr = Some (Inr result')"
        by (simp add: Let_def)
      from Suc.IH [OF this] p show ?thesis by simp
    qed
  qed
qed

lemma Disassemble_Pointers_empty:
  "Disassemble n arr spare opts = Some (Inr res) \<Longrightarrow> Pointers res = Map.empty"
  by (auto simp: Disassemble_def Let_def dest!: Pointers_disasm_loop
      split: sum.splits option.splits)

lemma goto_file_len: "length goto_file = 465"
  by (simp add: goto_file_def bytes_of_def)

lemma goto_file_stream:
  "k < 13 \<Longrightarrow> goto_file ! (452 + k) = [0x23, 0, 1, 1, 0, 1, 0, 0, 0xFF, 0xE8, 3, 0, 0] ! k"
  by (simp add: goto_file_def bytes_of_def nth_append)

lemma goto_file_bytes:
  "goto_file ! 452 = 0x23" "goto_file ! 453 = 0" "goto_file ! 454 = 1" "goto_file ! 455 = 1"
  "goto_file ! 456 = 0" "goto_file ! 457 = 1" "goto_file ! 458 = 0" "goto_file ! 459 = 0"
  "goto_file ! 460 = 0xFF" "goto_file ! 461 = 0xE8" "goto_file ! 462 = 3" "goto_file ! 463 = 0"
  "goto_file ! 464 = 0"
  using goto_file_stream [of 0] goto_file_stream [of 1] goto_file_stream [of 2]
    goto_file_stream [of 3] goto_file_stream [of 4] goto_file_stream [of 5]
    goto_file_stream [of 6] goto_file_stream [of 7] goto_file_stream [of 8]
    goto_file_stream [of 9] goto_file_stream [of 10] goto_file_stream [of 11]
    goto_file_stream [of 12]
  by simp_all

lemma fmt_1000: "fmt_d 1000 = ''1000''"
  by (simp add: fmt_defs)

lemma goto_loop:
  "disasm_loop (Suc (n + 5)) (NewReader goto_file 452 465 ModeRealLive) goto_header
     \<lparr>Commands = [], ResStrs = [], Pointers = Map.empty, ResMode = ModeRealLive,
       ResVersion = [1, 2, 7, 0], Header = goto_header, Error = None,
       ResSeenMap = \<lparr>MapEntryPoints = []\<rparr>\<rparr> DefaultOptions 452 = Some (Inr goto_result)"
  unfolding fuel5
  by (simp add: readCommand_def read_call_header_def readFunction_def readFuncArgs_def
      GetData_def GetExpression_def handleGoto_def AtEnd_def RelPos_def reader_defs
      GetInt16_def ReadUint16_def GetI16_def le_u16_def goto_file_len goto_file_bytes
      new_cmd_def append_cmd_def goto_result_def fmt_1000 Let_def)


text \<open>
  Claim C3 fails on the code. \<open>goto_file\<close> is a RealLive file whose code is the single
  call \<open>goto(1000)\<close>. Its disassembly, from a buffer of any capacity, returns the one
  command and an empty pointer set: neither \<open>handleGoto\<close> nor any other function writes
  \<open>result.Pointers\<close>.
\<close>

theorem Disassemble_goto_no_pointers:
  "Disassemble (n + 6) goto_file spare DefaultOptions = Some (Inr goto_result) \<and>
   map Kepago (Commands goto_result) = [[ElemString ''goto'', ElemString ''(1000)'']] \<and>
   Pointers goto_result = Map.empty"
proof -
  have "Disassemble (Suc (n + 5)) goto_file spare DefaultOptions = Some (Inr goto_result)"
    using goto_loop [of n]
    by (simp add: Disassemble_def goto_file_header Let_def goto_header_def DefaultOptions_def Len_def
        goto_file_len del: disasm_loop.simps)
  moreover have "n + 6 = Suc (n + 5)"
    by simp
  ultimately show ?thesis
    by (simp only: goto_result_def DisassemblyResult.simps Command.simps list.map)
qed

text \<open>
  Claim C2 fails on the code. In the run \<open>A 01 02 03 B 00\<close> the byte after \<open>0x03\<close> is
  appended to the same text: the \<open>break\<close> of the \<open>0x03\<close> case leaves the \<open>switch\<close> only.
\<close>

theorem readTextout_continues_after_page_break:
  "ResStrs (snd (readTextout (NewReader [0x41, 0x01, 0x02, 0x03, 0x42, 0x00] 0 6 m) result 0 opts)) =
     ResStrs result @
       [''A'' @ [backslash, CHR ''n'', backslash, CHR ''w'', backslash, CHR ''p''] @ ''B''] \<and>
   fst (readTextout (NewReader [0x41, 0x01, 0x02, 0x03, 0x42, 0x00] 0 6 m) result 0 opts) =
     (Inr (), \<lparr>data = [0x41, 0x01, 0x02, 0x03, 0x42, 0x00], pos = 5, origin = 0, limit = 6,
               mode = m\<rparr>)"
  by (simp add: readTextout_def textout_loop_example Let_def append_cmd_def)


section \<open>Properties of the LZ77 codec\<close>

lemma match_loop_le:
  "matchLen \<le> maxMatch \<Longrightarrow> match_loop buf start p maxMatch matchLen \<le> maxMatch"
proof (induction buf start p maxMatch matchLen rule: match_loop.induct)
  case (1 buf start p maxMatch matchLen)
  then show ?case
    by (subst match_loop.simps) auto
qed

lemma search_loop_le:
  "fst best \<le> maxMatch \<Longrightarrow> 0 \<le> maxMatch \<Longrightarrow>
   fst (search_loop buf p maxSearch maxMatch off best) \<le> maxMatch"
proof (induction buf p maxSearch maxMatch off best rule: search_loop.induct)
  case (1 buf p maxSearch maxMatch off best)
  have m: "match_loop buf (p - off) p maxMatch 0 \<le> maxMatch"
    using "1.prems"(2) by (rule match_loop_le)
  show ?case
    using "1.IH" [OF _ refl refl] "1.prems" m
    by (subst search_loop.simps) (auto simp: Let_def)
qed

text \<open>A back-reference never reaches past the end of the input.\<close>

lemma searchData_within:
  assumes "fst (searchData buf p) \<noteq> 0"
  shows "p + (snd (searchData buf p) + 2) \<le> int (length buf)"
proof -
  define maxMatch where
    "maxMatch = (if p + level > int (length buf) then int (length buf) - p else level)"
  define maxSearch where "maxSearch = (if p > lookback then lookback else p)"
  have m: "maxMatch \<le> int (length buf) - p"
    by (simp add: maxMatch_def)
  from assms have a: "\<not> p < acceptLevel" "\<not> maxMatch < acceptLevel"
    by (auto simp: searchData_def Let_def maxMatch_def split: if_splits)
  then have "0 \<le> maxMatch"
    by (simp add: acceptLevel_def)
  then have "fst (search_loop buf p maxSearch maxMatch 1 (0, 0)) \<le> maxMatch"
    by (intro search_loop_le) simp_all
  moreover have "snd (searchData buf p) = fst (search_loop buf p maxSearch maxMatch 1 (0, 0)) - 2"
    using assms a
    by (auto simp: searchData_def Let_def maxMatch_def maxSearch_def split: if_splits)
  ultimately show ?thesis
    using m by simp
qed

lemma put_literal_inPos:
  "put_literal inp s = Inr s' \<Longrightarrow> inPos s' \<le> int (length inp)"
  by (auto simp: put_literal_def Let_def split: if_splits)

lemma put_ref_inPos: "put_ref offset mlen s = Inr s' \<Longrightarrow> inPos s' = inPos s + (mlen + 2)"
  by (auto simp: put_ref_def Let_def split: if_splits)

lemma group_loop_inPos:
  "group_loop inp i s ctrlByte = Inr (s', ctrl') \<Longrightarrow> inPos s \<le> int (length inp) \<Longrightarrow>
   inPos s' \<le> int (length inp)"
proof (induction inp i s ctrlByte arbitrary: s' ctrl' rule: group_loop.induct)
  case (1 inp i s ctrlByte)
  note eq = "1.prems"(1) [unfolded group_loop.simps [of inp i s ctrlByte]]
  show ?case
  proof (cases "i < 8 \<and> \<not> inPos s \<ge> int (length inp)")
    case False
    with eq "1.prems"(2) show ?thesis
      by (auto split: if_splits)
  next
    case True
    define step where "step =
      (if fst (searchData inp (inPos s)) = 0
       then map_sum id (\<lambda>s'. (s', ctrlByte OR push_bit i 1)) (put_literal inp s)
       else map_sum id (\<lambda>s'. (s', ctrlByte))
              (put_ref (fst (searchData inp (inPos s))) (snd (searchData inp (inPos s))) s))"
    from eq True obtain s1 c1 where st: "step = Inr (s1, c1)"
      by (cases step) (auto simp: step_def)
    have b: "inPos s1 \<le> int (length inp)"
    proof (cases "fst (searchData inp (inPos s)) = 0")
      case True
      with st show ?thesis
        by (cases "put_literal inp s") (auto simp: step_def dest: put_literal_inPos)
    next
      case False
      with st have "inPos s1 = inPos s + (snd (searchData inp (inPos s)) + 2)"
        by (cases "put_ref (fst (searchData inp (inPos s))) (snd (searchData inp (inPos s))) s")
           (auto simp: step_def dest: put_ref_inPos)
      with searchData_within [OF False] show ?thesis
        by simp
    qed
    show ?thesis
    proof (cases "inPos s1 \<ge> int (length inp)")
      case True
      with eq \<open>i < 8 \<and> \<not> inPos s \<ge> int (length inp)\<close> st b show ?thesis
        by (auto simp: step_def)
    next
      case False
      with eq \<open>i < 8 \<and> \<not> inPos s \<ge> int (length inp)\<close> st
      have "group_loop inp (i + 1) s1 c1 = Inr (s', ctrl')"
        by (auto simp: step_def)
      moreover have "i < 8" "\<not> inPos s \<ge> int (length inp)"
        using \<open>i < 8 \<and> \<not> inPos s \<ge> int (length inp)\<close> by auto
      ultimately show ?thesis
        using "1.IH" [OF _ _ st [unfolded step_def] refl False] b by blast
    qed
  qed
qed

lemma compress_round_inPos:
  "compress_round inp s = Inr s' \<Longrightarrow> inPos s \<le> int (length inp) \<Longrightarrow>
   inPos s' \<le> int (length inp)"
proof -
  assume r: "compress_round inp s = Inr s'" and b: "inPos s \<le> int (length inp)"
  from r obtain s1 c1 where g: "group_loop inp 0 (s\<lparr>outPos := add64 (outPos s) 1\<rparr>) 0 = Inr (s1, c1)"
    by (cases "group_loop inp 0 (s\<lparr>outPos := add64 (outPos s) 1\<rparr>) 0")
       (auto simp: compress_round_def Let_def)
  from group_loop_inPos [OF g] b have "inPos s1 \<le> int (length inp)"
    by simp
  with r g show ?thesis
    by (auto simp: compress_round_def Let_def split: if_splits)
qed

text \<open>
  The condition \<open>inPos <= srcLen\<close> of the outer loop holds before every round, so the loop
  never leaves through its exit: it can only end in a panic.
\<close>

lemma compress_loop_no_exit:
  assumes "compress_loop inp s = Some y" and "inPos s \<le> int (length inp)"
  shows "isl y"
proof -
  have "inPos s \<le> int (length inp) \<longrightarrow> isl y"
  proof (rule compress_loop.raw_induct
      [where P = "\<lambda>inp s y. inPos s \<le> int (length inp) \<longrightarrow> isl y", OF _ assms(1)], goal_cases)
    case (1 f inp s y)
    show ?case
    proof
      assume b: "inPos s \<le> int (length inp)"
      show "isl y"
      proof (cases "compress_round inp s")
        case (Inl e)
        with 1(2) b show ?thesis by auto
      next
        case (Inr s1)
        with 1(2) b have "f inp s1 = Some y"
          by simp
        moreover have "inPos s1 \<le> int (length inp)"
          using Inr b by (rule compress_round_inPos)
        ultimately show ?thesis
          using 1(1) by blast
      qed
    qed
  qed
  with assms(2) show ?thesis by simp
qed

text \<open>
  Claim C1 fails on the code. \<open>Compress\<close> returns a frame for no input at all, so
  \<open>Decompress(Compress(x))\<close> is never \<open>x\<close>: the loop condition \<open>inPos <= srcLen\<close> stays
  true when the input is used up (\<open>inPos = srcLen\<close>), and the loop goes on appending
  empty groups.
\<close>

theorem Compress_returns_no_frame:
  "Compress x \<noteq> Some (Inr frame) \<and> roundtrip x \<noteq> Some (Inr x)"
proof -
  have c: "Compress x \<noteq> Some (Inr f)" for f
  proof
    assume a: "Compress x = Some (Inr f)"
    then obtain s where
      l: "compress_loop x \<lparr>cout = replicate (nat (8 + int (length x) * 2)) 0, outPos = 8, inPos = 0\<rparr>
            = Some (Inr s)"
      by (auto simp: Compress_def Let_def split: option.splits sum.splits if_splits)
    from compress_loop_no_exit [OF l] show False
      by simp
  qed
  then show ?thesis
    by (auto simp: roundtrip_def split: option.splits sum.splits)
qed

text \<open>
  A second defect sits behind the first. The search window is 4096 bytes, but the offset
  field of a token has 12 bits: a match at distance 4096 is written with offset 0, which
  \<open>Decompress\<close> reads as a copy of the (zero) bytes it is about to write.
\<close>

lemma ref_token_full_window: "uint (drop_bit 4 (ref_token lookback mlen)) = 0"
proof -
  have "(15::int) = mask 4"
    by (simp add: mask_eq_exp_minus_1)
  then have "mlen AND 15 = take_bit 4 mlen"
    by (simp add: take_bit_eq_mask)
  then show ?thesis
    by (simp add: ref_token_def lookback_def unsigned_drop_bit_eq uint_word_of_int_eq take_bit_or
        drop_bit_take_bit)
qed

lemma match_loop_differ:
  "0 < maxMatch \<Longrightarrow> buf ! nat start \<noteq> buf ! nat p \<Longrightarrow> match_loop buf start p maxMatch 0 = 0"
  by (subst match_loop.simps) simp

lemma search_loop_skip:
  assumes "\<And>j. off \<le> j \<Longrightarrow> j < k \<Longrightarrow> buf ! nat (p - j) \<noteq> buf ! nat p"
    and "off \<le> k" and "k \<le> maxSearch" and "0 < maxMatch"
  shows "search_loop buf p maxSearch maxMatch off (0, 0) =
         search_loop buf p maxSearch maxMatch k (0, 0)"
  using assms
proof (induction "nat (k - off)" arbitrary: off)
  case 0
  then show ?case by simp
next
  case (Suc n)
  then have lt: "off < k" by linarith
  have m: "match_loop buf (p - off) p maxMatch 0 = 0"
    using Suc.prems(4) Suc.prems(1) [of off] lt by (intro match_loop_differ) simp_all
  have "search_loop buf p maxSearch maxMatch off (0, 0) =
        search_loop buf p maxSearch maxMatch (off + 1) (0, 0)"
    using lt Suc.prems(3,4) by (subst search_loop.simps) (simp add: m)
  also have "\<dots> = search_loop buf p maxSearch maxMatch k (0, 0)"
    using Suc.hyps(2) Suc.prems lt by (intro Suc.hyps(1)) auto
  finally show ?case .
qed

lemma searchData_full_window:
  "searchData ([1, 2, 3] @ replicate 4093 0 @ [1, 2, 3]) 4096 = (4096, 1)"
proof -
  define buf :: "byte list" where "buf = [1, 2, 3] @ replicate 4093 0 @ [1, 2, 3]"
  have at: "buf ! 0 = 1" "buf ! Suc 0 = 2" "buf ! 2 = 3"
    "buf ! 4096 = 1" "buf ! 4097 = 2" "buf ! 4098 = 3" "length buf = 4099"
    by (simp_all add: buf_def nth_append)
  have other: "buf ! nat (4096 - j) \<noteq> buf ! nat 4096" if "1 \<le> j" "j < 4096" for j :: int
  proof -
    have "nat (4096 - j) = 1 \<or> nat (4096 - j) = 2 \<or> (3 \<le> nat (4096 - j) \<and> nat (4096 - j) < 4096)"
      using that by linarith
    then have "buf ! nat (4096 - j) \<noteq> 1"
      by (auto simp: buf_def nth_append split: if_splits)
    then show ?thesis
      by (simp add: at)
  qed
  have m: "match_loop buf 0 4096 3 0 = 3"
    by (simp add: match_loop.simps [of _ 0 4096 3] at)
  have "search_loop buf 4096 4096 3 1 (0, 0) = search_loop buf 4096 4096 3 4096 (0, 0)"
    using other by (intro search_loop_skip) simp_all
  also have "\<dots> = (3, 4096)"
    by (subst search_loop.simps) (simp add: m)
  finally have "searchData buf 4096 = (4096, 1)"
    by (simp add: searchData_def lookback_def level_def acceptLevel_def at)
  then show ?thesis
    by (simp only: buf_def)
qed

text \<open>
  \<open>Decompress\<close> on two frames written by hand: three literals and a back-reference of
  length 2 at distance 3; and the same with a token of length 3 whose offset field is 0.
\<close>

lemma Decompress_examples:
  "Decompress [14, 0, 0, 0, 5, 0, 0, 0, 0x07, 0x61, 0x62, 0x63, 0x30, 0x00] =
     Inr [0x61, 0x62, 0x63, 0x61, 0x62]"
  "Decompress [14, 0, 0, 0, 6, 0, 0, 0, 0x07, 0x61, 0x62, 0x63, 0x01, 0x00] =
     Inr [0x61, 0x62, 0x63, 0, 0, 0]"
  by code_simp+

end
